theory Spec2Isabelle
  imports Main
begin

section \<open>Python text primitives used by preprocessor\_analyzer.py\<close>

text \<open>
  A Python \<open>str\<close> is modelled as a \<open>string\<close> whose characters are the code points
  below 256. The three character predicates are those of \<open>str.isspace\<close>, of the
  regular-expression class \<open>\w\<close> and of \<open>\d\<close> on that range.
\<close>

definition is_space :: "char \<Rightarrow> bool" where
  "is_space c =
     (let n = (of_char c :: nat)
      in (9 \<le> n \<and> n \<le> 13) \<or> (28 \<le> n \<and> n \<le> 32) \<or> n = 133 \<or> n = 160)"

definition is_digit :: "char \<Rightarrow> bool" where
  "is_digit c = (let n = (of_char c :: nat) in 48 \<le> n \<and> n \<le> 57)"

definition is_word :: "char \<Rightarrow> bool" where
  "is_word c =
     (let n = (of_char c :: nat)
      in (48 \<le> n \<and> n \<le> 57) \<or> (65 \<le> n \<and> n \<le> 90) \<or> n = 95 \<or> (97 \<le> n \<and> n \<le> 122)
         \<or> n = 170 \<or> n = 178 \<or> n = 179 \<or> n = 181 \<or> n = 185 \<or> n = 186
         \<or> (188 \<le> n \<and> n \<le> 190) \<or> (192 \<le> n \<and> n \<le> 214)
         \<or> (216 \<le> n \<and> n \<le> 246) \<or> 248 \<le> n)"

text \<open>\<open>str.lower\<close>, character by character.\<close>

definition lower_char :: "char \<Rightarrow> char" where
  "lower_char c =
     (let n = (of_char c :: nat)
      in if (65 \<le> n \<and> n \<le> 90) \<or> (192 \<le> n \<and> n \<le> 214) \<or> (216 \<le> n \<and> n \<le> 222)
         then char_of (n + 32) else c)"

definition py_lower :: "string \<Rightarrow> string" where
  "py_lower s = map lower_char s"

text \<open>\<open>s.startswith(p)\<close>, \<open>s.strip()\<close>, \<open>s.split()\<close>, \<open>s.split(c)\<close> for a
  one-character separator, \<open>sep.join(xs)\<close> and \<open>s.replace(old, new)\<close>.\<close>

definition py_startswith :: "string \<Rightarrow> string \<Rightarrow> bool" where
  "py_startswith s p = (take (length p) s = p)"

definition py_strip :: "string \<Rightarrow> string" where
  "py_strip s = rev (dropWhile is_space (rev (dropWhile is_space s)))"

fun split_ws_aux :: "string \<Rightarrow> string \<Rightarrow> string list" where
  "split_ws_aux w [] = (if w = [] then [] else [rev w])"
| "split_ws_aux w (x # xs) =
     (if is_space x then (if w = [] then split_ws_aux [] xs else rev w # split_ws_aux [] xs)
      else split_ws_aux (x # w) xs)"

definition py_split_ws :: "string \<Rightarrow> string list" where
  "py_split_ws s = split_ws_aux [] s"

fun py_split :: "char \<Rightarrow> string \<Rightarrow> string list" where
  "py_split c [] = [[]]"
| "py_split c (x # xs) =
     (if x = c then [] # py_split c xs
      else (case py_split c xs of [] \<Rightarrow> [[x]] | w # ws \<Rightarrow> (x # w) # ws))"

fun py_join :: "string \<Rightarrow> string list \<Rightarrow> string" where
  "py_join sep [] = []"
| "py_join sep [x] = x"
| "py_join sep (x # y # ys) = x @ sep @ py_join sep (y # ys)"

fun replace_nonempty :: "string \<Rightarrow> string \<Rightarrow> string \<Rightarrow> string" where
  "replace_nonempty old new [] = []"
| "replace_nonempty old new (x # xs) =
     (if py_startswith (x # xs) old
      then new @ replace_nonempty old new (drop (length old - 1) xs)
      else x # replace_nonempty old new xs)"

definition py_replace :: "string \<Rightarrow> string \<Rightarrow> string \<Rightarrow> string" where
  "py_replace s old new =
     (if old = [] then new @ concat (map (\<lambda>c. c # new) s)
      else replace_nonempty old new s)"

subsection \<open>Python values\<close>

text \<open>
  The values the analyzer handles: booleans and integers (the configuration's defines and
  the results of directive expressions), and \<open>POther\<close> for any other object, given by
  what \<open>str()\<close>, \<open>bool()\<close> and \<open>int()\<close> make of it (\<open>int()\<close> is \<open>None\<close> where it raises).
\<close>

datatype pyval = PBool bool | PInt int | POther string bool "int option"

fun truthy :: "pyval \<Rightarrow> bool" where
  "truthy (PBool b) = b"
| "truthy (PInt n) = (n \<noteq> 0)"
| "truthy (POther s b i) = b"

fun py_int :: "pyval \<Rightarrow> int option" where
  "py_int (PBool b) = Some (if b then 1 else 0)"
| "py_int (PInt n) = Some n"
| "py_int (POther s b i) = i"

definition digit_char :: "nat \<Rightarrow> char" where
  "digit_char d = char_of (48 + d)"

function decimal :: "nat \<Rightarrow> string" where
  "decimal n = (if n < 10 then [digit_char n] else decimal (n div 10) @ [digit_char (n mod 10)])"
  by pat_completeness auto
termination
  by (relation "measure id") auto

declare decimal.simps [simp del]

fun py_str :: "pyval \<Rightarrow> string" where
  "py_str (PBool b) = (if b then ''True'' else ''False'')"
| "py_str (PInt n) = (if n < 0 then CHR ''-'' # decimal (nat (- n)) else decimal (nat n))"
| "py_str (POther s b i) = s"

text \<open>A \<open>dict\<close> is an association list in insertion order with distinct keys.\<close>

type_synonym ('k, 'v) dict = "('k \<times> 'v) list"

definition dict_get :: "('k, 'v) dict \<Rightarrow> 'k \<Rightarrow> 'v \<Rightarrow> 'v" where
  "dict_get d k dflt = (case map_of d k of None \<Rightarrow> dflt | Some v \<Rightarrow> v)"

definition dict_mem :: "'k \<Rightarrow> ('k, 'v) dict \<Rightarrow> bool" where
  "dict_mem k d = (map_of d k \<noteq> None)"

fun dict_set :: "('k, 'v) dict \<Rightarrow> 'k \<Rightarrow> 'v \<Rightarrow> ('k, 'v) dict" where
  "dict_set [] k v = [(k, v)]"
| "dict_set ((k', v') # d) k v = (if k' = k then (k, v) # d else (k', v') # dict_set d k v)"

section \<open>The regular expressions of the analyzer\<close>

text \<open>
  Every pattern of the source is a sequence of literal characters, repeated character
  classes (\<open>\s*\<close>, \<open>\w+\<close>, \<open>[^)]+\<close>, the lazy \<open>.*?\<close>), capture groups and word
  boundaries, with at most one optional non-capturing group at its end. A pattern is kept
  as that sequence and matched by backtracking as \<open>re\<close> does: a greedy repetition tries
  the longest run first, a lazy one the shortest. Under \<open>(?i)\<close> literals compare after
  lowering.
\<close>

datatype cclass = Word | Space | Digit | AnyButNewline | Except "char list" | Among "char list"

fun in_class :: "cclass \<Rightarrow> char \<Rightarrow> bool" where
  "in_class Word c = is_word c"
| "in_class Space c = is_space c"
| "in_class Digit c = is_digit c"
| "in_class AnyButNewline c = (c \<noteq> CHR 0x0A)"
| "in_class (Except cs) c = (c \<notin> set cs)"
| "in_class (Among cs) c = (c \<in> set cs)"

datatype atom = Lit char | Rep cclass nat bool | Open nat | Close nat | Boundary

datatype pattern = Pattern bool "atom list" "atom list option"

definition lits :: "string \<Rightarrow> atom list" where
  "lits s = map Lit s"

text \<open>A matcher state: the character before the position, the text from the position on,
  the text at which each open group started, and the groups closed so far.\<close>

type_synonym mstate = "char option \<times> string \<times> (nat \<times> string) list \<times> (nat \<times> string) list"

fun first_some :: "('a \<Rightarrow> 'b option) \<Rightarrow> 'a list \<Rightarrow> 'b option" where
  "first_some f [] = None"
| "first_some f (x # xs) = (case f x of Some y \<Rightarrow> Some y | None \<Rightarrow> first_some f xs)"

lemma first_some_cong [fundef_cong]:
  "xs = ys \<Longrightarrow> (\<And>x. x \<in> set ys \<Longrightarrow> f x = g x) \<Longrightarrow> first_some f xs = first_some g ys"
  by (induction ys arbitrary: xs) (auto split: option.splits)

definition eq_char :: "bool \<Rightarrow> char \<Rightarrow> char \<Rightarrow> bool" where
  "eq_char icase c x = (if icase then lower_char c = lower_char x else c = x)"

definition advance :: "nat \<Rightarrow> mstate \<Rightarrow> mstate" where
  "advance j s =
     (case s of (p, xs, os, gs) \<Rightarrow>
        (if j = 0 then p else Some (last (take j xs)), drop j xs, os, gs))"

definition at_boundary :: "char option \<Rightarrow> string \<Rightarrow> bool" where
  "at_boundary p xs =
     ((case p of None \<Rightarrow> False | Some c \<Rightarrow> is_word c)
        \<noteq> (case xs of [] \<Rightarrow> False | x # _ \<Rightarrow> is_word x))"

fun match_atoms :: "bool \<Rightarrow> atom list \<Rightarrow> mstate \<Rightarrow> mstate option" where
  "match_atoms ic [] s = Some s"
| "match_atoms ic (Lit c # as) (p, xs, os, gs) =
     (case xs of
        [] \<Rightarrow> None
      | x # xs' \<Rightarrow> if eq_char ic c x then match_atoms ic as (Some x, xs', os, gs) else None)"
| "match_atoms ic (Rep cl n greedy # as) (p, xs, os, gs) =
     (let k = length (takeWhile (in_class cl) xs);
          counts = (if greedy then rev [n..<Suc k] else [n..<Suc k])
      in first_some (\<lambda>j. match_atoms ic as (advance j (p, xs, os, gs))) counts)"
| "match_atoms ic (Open g # as) (p, xs, os, gs) = match_atoms ic as (p, xs, (g, xs) # os, gs)"
| "match_atoms ic (Close g # as) (p, xs, os, gs) =
     (case map_of os g of
        None \<Rightarrow> None
      | Some start \<Rightarrow>
          match_atoms ic as (p, xs, os, (g, take (length start - length xs) start) # gs))"
| "match_atoms ic (Boundary # as) (p, xs, os, gs) =
     (if at_boundary p xs then match_atoms ic as (p, xs, os, gs) else None)"

definition match_here :: "pattern \<Rightarrow> mstate \<Rightarrow> mstate option" where
  "match_here pat s =
     (case pat of Pattern ic body opt \<Rightarrow>
        (case match_atoms ic body s of
           None \<Rightarrow> None
         | Some s' \<Rightarrow>
             (case opt of
                None \<Rightarrow> Some s'
              | Some tail \<Rightarrow> (case match_atoms ic tail s' of None \<Rightarrow> Some s' | Some s'' \<Rightarrow> Some s''))))"

text \<open>Scanning a text from left to right for the non-overlapping matches, as
  \<open>re.finditer\<close> and \<open>re.sub\<close> do; the characters between matches are kept.\<close>

datatype piece = Plain char | Matched string "(nat \<times> string) list"

function scan :: "pattern \<Rightarrow> char option \<Rightarrow> string \<Rightarrow> piece list" where
  "scan pat p xs =
     (case match_here pat (p, xs, [], []) of
        Some (p', rest, os, gs) \<Rightarrow>
          if length rest < length xs
          then Matched (take (length xs - length rest) xs) gs # scan pat p' rest
          else (case xs of
                  [] \<Rightarrow> [Matched [] gs]
                | x # xs' \<Rightarrow> Matched [] gs # Plain x # scan pat (Some x) xs')
      | None \<Rightarrow> (case xs of [] \<Rightarrow> [] | x # xs' \<Rightarrow> Plain x # scan pat (Some x) xs'))"
  by pat_completeness auto
termination
  by (relation "measure (\<lambda>(pat, p, xs). length xs)") auto

declare scan.simps [simp del]

definition group :: "(nat \<times> string) list \<Rightarrow> nat \<Rightarrow> string" where
  "group gs k = (case map_of gs k of None \<Rightarrow> [] | Some s \<Rightarrow> s)"

definition re_finditer :: "pattern \<Rightarrow> string \<Rightarrow> (nat \<times> string) list list" where
  "re_finditer pat s =
     concat (map (\<lambda>pc. case pc of Plain c \<Rightarrow> [] | Matched m gs \<Rightarrow> [gs]) (scan pat None s))"

definition re_search :: "pattern \<Rightarrow> string \<Rightarrow> (nat \<times> string) list option" where
  "re_search pat s = (case re_finditer pat s of [] \<Rightarrow> None | gs # _ \<Rightarrow> Some gs)"

definition re_sub :: "pattern \<Rightarrow> ((nat \<times> string) list \<Rightarrow> string) \<Rightarrow> string \<Rightarrow> string" where
  "re_sub pat repl s =
     concat (map (\<lambda>pc. case pc of Plain c \<Rightarrow> [c] | Matched m gs \<Rightarrow> repl gs) (scan pat None s))"

section \<open>The host evaluator\<close>

text \<open>
  Both \<open>_evaluate_preprocessor_expression\<close> and \<open>_evaluate_range\<close> hand a text to Python's
  \<open>eval\<close>. The model takes the evaluator as a parameter: given the names bound by the
  globals and locals dictionaries of the call and the text, it returns a value, raises an
  \<open>Exception\<close> (which the callers' \<open>except Exception\<close> clauses catch), or gives no answer
  (it does not return, or leaves through an exception outside \<open>Exception\<close>).
\<close>

datatype outcome = Returns pyval | Raises | NoAnswer

type_synonym host_eval = "(string, pyval) dict \<Rightarrow> string \<Rightarrow> outcome"

text \<open>
  \<open>py_eval_atom\<close> is Python's \<open>eval\<close> on the atoms of its expression grammar: the
  constants \<open>True\<close> and \<open>False\<close>, a decimal integer literal, and a name, which evaluates
  to its binding and raises \<open>NameError\<close> (or \<open>TypeError\<close>, under \<open>__builtins__: None\<close>)
  when it has none. Every other text lies outside this fragment and is given \<open>NoAnswer\<close>.
\<close>

definition is_ident_start :: "char \<Rightarrow> bool" where
  "is_ident_start c =
     (let n = (of_char c :: nat) in (65 \<le> n \<and> n \<le> 90) \<or> n = 95 \<or> (97 \<le> n \<and> n \<le> 122))"

definition python_keywords :: "string list" where
  "python_keywords =
     [''False'', ''None'', ''True'', ''and'', ''as'', ''assert'', ''async'', ''await'', ''break'',
      ''class'', ''continue'', ''def'', ''del'', ''elif'', ''else'', ''except'', ''finally'',
      ''for'', ''from'', ''global'', ''if'', ''import'', ''in'', ''is'', ''lambda'', ''nonlocal'',
      ''not'', ''or'', ''pass'', ''raise'', ''return'', ''try'', ''while'', ''with'', ''yield'',
      ''__debug__'']"

definition digits_value :: "string \<Rightarrow> nat" where
  "digits_value s = foldl (\<lambda>a c. 10 * a + (of_char c - 48)) 0 s"

definition py_eval_atom :: host_eval where
  "py_eval_atom names e =
     (if e = ''True'' then Returns (PBool True)
      else if e = ''False'' then Returns (PBool False)
      else if e \<noteq> [] \<and> length e \<le> 4300 \<and> list_all is_digit e
              \<and> (hd e \<noteq> CHR ''0'' \<or> list_all (\<lambda>c. c = CHR ''0'') e)
      then Returns (PInt (int (digits_value e)))
      else if e \<noteq> [] \<and> is_ident_start (hd e)
              \<and> list_all (\<lambda>c. is_ident_start c \<or> is_digit c) e \<and> e \<notin> set python_keywords
      then (case map_of names e of Some v \<Rightarrow> Returns v | None \<Rightarrow> Raises)
      else NoAnswer)"

section \<open>The conditional compilation engine\<close>

text \<open>\<open>PreprocessorState\<close>: the defines of the configuration and the stack of activation
  flags, which starts as \<open>[True]\<close>. The field \<open>defines\<close> is written \<open>defines'\<close>.\<close>

record PreprocessorState =
  defines' :: "(string, pyval) dict"
  active_blocks :: "pyval list"

definition initial_state :: "(string, pyval) dict \<Rightarrow> PreprocessorState" where
  "initial_state ds = \<lparr>defines' = ds, active_blocks = [PBool True]\<rparr>"

definition is_active :: "PreprocessorState \<Rightarrow> bool" where
  "is_active st = list_all truthy (active_blocks st)"

datatype error = IndexError | ValueError | Unanswered | UnmodelledDefine

text \<open>What the analyzer prints when an evaluation fails, without the exception's own
  message: the expression, or the two ends of the range, after substitution.\<close>

datatype diagnostic = CouldNotEvaluateExpression string | CouldNotEvaluateRange string string

text \<open>
  The patterns \<open>defined\((\w+)\)\<close> and \<open>\bNAME\b\<close>. The source formats the name of each
  define unescaped into the second pattern and passes \<open>str(value)\<close> to \<open>re.sub\<close> as a
  replacement template, both outside the \<open>try\<close>. For a name made of word characters
  only, the pattern is that literal word, and a text without a backslash is a template
  that stands for itself: such a define is \<open>plain\<close>. For any other define Python may
  match differently or raise \<open>re.error\<close>; the model does not follow it there and the
  substitution ends with \<open>UnmodelledDefine\<close>.
\<close>

definition defined_pattern :: pattern where
  "defined_pattern =
     Pattern False (lits ''defined('' @ [Open 1, Rep Word 1 True, Close 1, Lit CHR '')'']) None"

definition define_pattern :: "string \<Rightarrow> pattern" where
  "define_pattern name = Pattern False ([Boundary] @ lits name @ [Boundary]) None"

text \<open>The dictionaries of \<open>eval(expr, {"__builtins__": {}}, {})\<close>.\<close>

definition preprocessor_scope :: "(string, pyval) dict" where
  "preprocessor_scope = [(''__builtins__'', POther ''{}'' False None)]"

definition plain_define :: "string \<times> pyval \<Rightarrow> bool" where
  "plain_define d = (case d of (name, v) \<Rightarrow> list_all is_word name \<and> CHR 0x5C \<notin> set (py_str v))"

fun substitute_defines :: "(string, pyval) dict \<Rightarrow> string \<Rightarrow> error + string" where
  "substitute_defines [] e = Inr e"
| "substitute_defines ((define, v) # ds) e =
     (if plain_define (define, v)
      then substitute_defines ds (re_sub (define_pattern define) (\<lambda>m. py_str v) e)
      else Inl UnmodelledDefine)"

definition substitute_expression :: "(string, pyval) dict \<Rightarrow> string \<Rightarrow> error + string" where
  "substitute_expression ds expr =
     (let e1 = re_sub defined_pattern (\<lambda>m. py_str (PBool (dict_mem (group m 1) ds))) expr;
          e2 = py_replace (py_replace e1 ''&&'' '' and '') ''||'' '' or ''
      in substitute_defines ds e2)"

definition evaluate_preprocessor_expression ::
  "host_eval \<Rightarrow> PreprocessorState \<Rightarrow> string \<Rightarrow> error + (bool \<times> diagnostic list)" where
  "evaluate_preprocessor_expression ev st expr =
     (case substitute_expression (defines' st) expr of
        Inl err \<Rightarrow> Inl err
      | Inr e \<Rightarrow>
          (case ev preprocessor_scope e of
             Returns v \<Rightarrow> Inr (truthy v, [])
           | Raises \<Rightarrow> Inr (False, [CouldNotEvaluateExpression e])
           | NoAnswer \<Rightarrow> Inl Unanswered))"

definition push :: "pyval \<Rightarrow> PreprocessorState \<Rightarrow> PreprocessorState" where
  "push v st = st\<lparr>active_blocks := active_blocks st @ [v]\<rparr>"

definition pop :: "PreprocessorState \<Rightarrow> PreprocessorState" where
  "pop st = st\<lparr>active_blocks := butlast (active_blocks st)\<rparr>"

text \<open>\<open>line.split()[-1]\<close>.\<close>

definition last_word :: "string \<Rightarrow> error + string" where
  "last_word line = (case py_split_ws line of [] \<Rightarrow> Inl IndexError | w # ws \<Rightarrow> Inr (last (w # ws)))"

text \<open>\<open>_handle_preprocessor_directive(lines, i, processed_lines)\<close>: the new state and the
  index it returns. It never touches \<open>processed_lines\<close>, which the model leaves out.\<close>

definition handle_preprocessor_directive ::
  "host_eval \<Rightarrow> PreprocessorState \<Rightarrow> string list \<Rightarrow> nat \<Rightarrow> error + (PreprocessorState \<times> nat)" where
  "handle_preprocessor_directive ev st lines i =
     (if \<not> i < length lines then Inl IndexError
      else
        let line = py_strip (lines ! i) in
        if py_startswith line ''#ifdef'' then
          (case last_word line of
             Inl e \<Rightarrow> Inl e
           | Inr define \<Rightarrow> Inr (push (dict_get (defines' st) define (PBool False)) st, i + 1))
        else if py_startswith line ''#ifndef'' then
          (case last_word line of
             Inl e \<Rightarrow> Inl e
           | Inr define \<Rightarrow>
               Inr (push (PBool (\<not> truthy (dict_get (defines' st) define (PBool False)))) st, i + 1))
        else if py_startswith line ''#if'' then
          (case evaluate_preprocessor_expression ev st (py_strip (drop 3 line)) of
             Inl e \<Rightarrow> Inl e
           | Inr (result, ds) \<Rightarrow> Inr (push (PBool result) st, i + 1))
        else if py_startswith line ''#elif'' then
          (if active_blocks st \<noteq> [] then
             (case evaluate_preprocessor_expression ev (pop st) (py_strip (drop 5 line)) of
                Inl e \<Rightarrow> Inl e
              | Inr (result, ds) \<Rightarrow> Inr (push (PBool result) (pop st), i + 1))
           else Inr (st, i + 1))
        else if py_startswith line ''#else'' then
          (if active_blocks st \<noteq> [] then
             Inr (push (PBool (\<not> truthy (last (active_blocks st)))) (pop st), i + 1)
           else Inr (st, i + 1))
        else if py_startswith line ''#endif'' then
          (if active_blocks st \<noteq> [] then Inr (pop st, i + 1) else Inr (st, i + 1))
        else Inr (st, i + 1))"

lemma handle_preprocessor_directive_index:
  "handle_preprocessor_directive ev st lines i = Inr (st', i') \<Longrightarrow> i' = Suc i"
  by (auto simp: handle_preprocessor_directive_def Let_def split: if_splits sum.splits prod.splits)

text \<open>The \<open>while\<close> loop of \<open>parse_file\<close>. After a directive the index the handler returned
  is advanced once more by the loop's own \<open>i += 1\<close>.\<close>

function parse_loop ::
  "host_eval \<Rightarrow> string list \<Rightarrow> nat \<Rightarrow> PreprocessorState \<Rightarrow> string list
     \<Rightarrow> error + (string list \<times> PreprocessorState)" where
  "parse_loop ev lines i st processed_lines =
     (if i < length lines then
        (let line = py_strip (lines ! i) in
         if py_startswith line ''#'' then
           (case handle_preprocessor_directive ev st lines i of
              Inl e \<Rightarrow> Inl e
            | Inr (st', i') \<Rightarrow> parse_loop ev lines (i' + 1) st' processed_lines)
         else if is_active st then parse_loop ev lines (i + 1) st (processed_lines @ [lines ! i])
         else parse_loop ev lines (i + 1) st processed_lines)
      else Inr (processed_lines, st))"
  by pat_completeness auto
termination
  by (relation "measure (\<lambda>(ev, lines, i, st, out). length lines - i)")
     (auto dest: handle_preprocessor_directive_index)

declare parse_loop.simps [simp del]

definition parse_file ::
  "host_eval \<Rightarrow> PreprocessorState \<Rightarrow> string \<Rightarrow> error + (string \<times> PreprocessorState)" where
  "parse_file ev st content =
     (case parse_loop ev (py_split (CHR 0x0A) content) 0 st [] of
        Inl e \<Rightarrow> Inl e
      | Inr (processed_lines, st') \<Rightarrow> Inr (py_join [CHR 0x0A] processed_lines, st'))"

section \<open>The dependency analyzer\<close>

text \<open>
  A source file as the analyzer sees it: \<open>path_name\<close> is \<open>path.name\<close>, \<open>path_str\<close> is
  \<open>str(path)\<close>, \<open>file_content\<close> is what reading it returns. A directory is the list of
  files that \<open>glob("*.F90")\<close> yields, in that order.
\<close>

record source_file =
  path_name :: string
  path_str :: string
  file_content :: string

text \<open>The patterns \<open>(?i)module\s+(\w+)\<close>, \<open>(?i)program\s+(\w+)\<close> and \<open>(?i)use\s+(\w+)\<close>.\<close>

definition keyword_pattern :: "string \<Rightarrow> pattern" where
  "keyword_pattern kw =
     Pattern True (lits kw @ [Rep Space 1 True, Open 1, Rep Word 1 True, Close 1]) None"

text \<open>\<open>ModuleDependencyAnalyzer\<close>: the two catalogs and the dependency sets. A set of
  names is kept as the list its iteration yields.\<close>

record ModuleDependencyAnalyzer =
  modules :: "(string, source_file) dict"
  programs :: "(string, source_file) dict"
  dependencies :: "(string, string list) dict"

definition scan_files :: "source_file list \<Rightarrow> ModuleDependencyAnalyzer \<Rightarrow> ModuleDependencyAnalyzer" where
  "scan_files dir a =
     foldl (\<lambda>a f.
        let a1 = foldl (\<lambda>a m. a\<lparr>modules := dict_set (modules a) (py_lower (group m 1)) f\<rparr>) a
                   (re_finditer (keyword_pattern ''module'') (file_content f))
        in foldl (\<lambda>a m. a\<lparr>programs := dict_set (programs a) (py_lower (group m 1)) f\<rparr>) a1
             (re_finditer (keyword_pattern ''program'') (file_content f)))
       a dir"

text \<open>\<open>_analyze_file_dependencies\<close>: \<open>set_order\<close> turns the sequence of names added to the
  set \<open>deps\<close> into the order in which the set is later iterated.\<close>

definition analyze_file_dependencies ::
  "(string list \<Rightarrow> string list) \<Rightarrow> string \<Rightarrow> source_file \<Rightarrow> ModuleDependencyAnalyzer
     \<Rightarrow> ModuleDependencyAnalyzer" where
  "analyze_file_dependencies set_order name f a =
     a\<lparr>dependencies :=
         dict_set (dependencies a) name
           (set_order (map (\<lambda>m. py_lower (group m 1))
              (re_finditer (keyword_pattern ''use'') (file_content f))))\<rparr>"

definition analyze_dependencies ::
  "(string list \<Rightarrow> string list) \<Rightarrow> ModuleDependencyAnalyzer \<Rightarrow> ModuleDependencyAnalyzer" where
  "analyze_dependencies set_order a =
     (let a1 = foldl (\<lambda>a (name, f). analyze_file_dependencies set_order name f a) a (modules a)
      in foldl (\<lambda>a (name, f). analyze_file_dependencies set_order name f a) a1 (programs a))"

text \<open>
  The nested function \<open>visit\<close> of \<open>analyze_file\<close> with its \<open>for\<close> loop, on the state
  \<open>(visited, needed)\<close>. The first argument is the recursion depth still available:
  Python raises \<open>RecursionError\<close> when it is used up, and the model returns \<open>None\<close>.
\<close>

fun visit ::
    "nat \<Rightarrow> (string, string list) dict \<Rightarrow> string \<Rightarrow> string set \<times> string list
       \<Rightarrow> (string set \<times> string list) option"
  and visit_deps ::
    "nat \<Rightarrow> (string, string list) dict \<Rightarrow> string list \<Rightarrow> string set \<times> string list
       \<Rightarrow> (string set \<times> string list) option" where
  "visit 0 g name s = None"
| "visit (Suc n) g name (visited, needed) =
     (if name \<in> visited then Some (visited, needed)
      else visit_deps n g (dict_get g name []) (insert name visited, needed))"
| "visit_deps n g [] s = Some s"
| "visit_deps n g (dep # deps) s =
     (case visit n g dep s of
        None \<Rightarrow> None
      | Some (visited, needed) \<Rightarrow>
          visit_deps n g deps (visited, if dep \<in> set needed then needed else needed @ [dep]))"

definition needed_order :: "nat \<Rightarrow> (string, string list) dict \<Rightarrow> string \<Rightarrow> string list option" where
  "needed_order depth g target_name =
     (case visit depth g target_name ({}, []) of
        None \<Rightarrow> None
      | Some (visited, needed) \<Rightarrow> Some (needed @ [target_name]))"

definition find_target :: "ModuleDependencyAnalyzer \<Rightarrow> string \<Rightarrow> string option" where
  "find_target a filename =
     (case filter (\<lambda>(name, f). path_name f = filename) (modules a) of
        (name, f) # _ \<Rightarrow> Some name
      | [] \<Rightarrow>
         (case filter (\<lambda>(name, f). path_name f = filename) (programs a) of
            (name, f) # _ \<Rightarrow> Some name
          | [] \<Rightarrow> None))"

datatype analysis_error = RecursionError | Failed error

definition analyze_file ::
  "nat \<Rightarrow> (string list \<Rightarrow> string list) \<Rightarrow> source_file list \<Rightarrow> string
     \<Rightarrow> analysis_error + (string list \<times> ModuleDependencyAnalyzer)" where
  "analyze_file depth set_order dir filename =
     (let a = analyze_dependencies set_order
                (scan_files dir \<lparr>modules = [], programs = [], dependencies = []\<rparr>)
      in case find_target a filename of
           None \<Rightarrow> Inr ([], a)
         | Some target_name \<Rightarrow>
             (case needed_order depth (dependencies a) target_name of
                None \<Rightarrow> Inl RecursionError
              | Some needed \<Rightarrow> Inr (needed, a)))"

section \<open>The memory footprint estimator\<close>

definition range_scope :: "(string, pyval) dict" where
  "range_scope =
     [(''__builtins__'', POther ''None'' False None),
      (''abs'', POther ''<built-in function abs>'' True None),
      (''min'', POther ''<built-in function min>'' True None),
      (''max'', POther ''<built-in function max>'' True None)]"

definition substitute_params :: "(string, pyval) dict \<Rightarrow> string \<Rightarrow> string" where
  "substitute_params params s = foldl (\<lambda>s (param, v). py_replace s param (py_str v)) s params"

text \<open>\<open>int(eval(text, {"__builtins__": None}, safe_dict))\<close> inside the \<open>try\<close>: \<open>None\<close> when
  the evaluation or the conversion raises.\<close>

definition eval_int :: "host_eval \<Rightarrow> string \<Rightarrow> error + int option" where
  "eval_int ev s =
     (case ev range_scope s of
        NoAnswer \<Rightarrow> Inl Unanswered
      | Raises \<Rightarrow> Inr None
      | Returns v \<Rightarrow> Inr (py_int v))"

text \<open>\<open>_evaluate_range\<close>. Unpacking \<open>start, end\<close> raises \<open>ValueError\<close> outside the \<open>try\<close> when
  the expression has more than one colon.\<close>

definition evaluate_range ::
  "host_eval \<Rightarrow> string \<Rightarrow> (string, pyval) dict \<Rightarrow> error + (int \<times> diagnostic list)" where
  "evaluate_range ev range_expr params =
     (if CHR '':'' \<notin> set range_expr then Inr (1, [])
      else
        (case map py_strip (py_split (CHR '':'') range_expr) of
           [start0, end0] \<Rightarrow>
             (let start = substitute_params params start0;
                  end1 = substitute_params params end0
              in case eval_int ev start of
                   Inl e \<Rightarrow> Inl e
                 | Inr None \<Rightarrow> Inr (100, [CouldNotEvaluateRange start end1])
                 | Inr (Some start_val) \<Rightarrow>
                     (case eval_int ev end1 of
                        Inl e \<Rightarrow> Inl e
                      | Inr None \<Rightarrow> Inr (100, [CouldNotEvaluateRange start end1])
                      | Inr (Some end_val) \<Rightarrow> Inr (end_val - start_val + 1, [])))
         | _ \<Rightarrow> Inl ValueError))"

text \<open>\<open>int(param_value)\<close> on a word: decimal digits, with single underscores allowed
  between digits; \<open>None\<close> for \<open>ValueError\<close>.\<close>

fun underscores_ok :: "string \<Rightarrow> bool" where
  "underscores_ok [] = True"
| "underscores_ok [c] = is_digit c"
| "underscores_ok (c # d # cs) =
     ((is_digit c \<or> (c = CHR ''_'' \<and> is_digit d)) \<and> underscores_ok (d # cs))"

definition int_of_word :: "string \<Rightarrow> int option" where
  "int_of_word w =
     (if w \<noteq> [] \<and> is_digit (hd w) \<and> underscores_ok w \<and> length w \<le> 4300
      then Some (int (digits_value (filter is_digit w))) else None)"

definition parameter_pattern :: pattern where
  "parameter_pattern =
     Pattern True
       (lits ''integer'' @ [Rep Space 0 True, Lit CHR '','', Rep Space 0 True] @ lits ''parameter''
        @ [Rep Space 0 True] @ lits ''::''
        @ [Rep Space 0 True, Open 1, Rep Word 1 True, Close 1, Rep Space 0 True, Lit CHR ''='',
           Rep Space 0 True, Open 2, Rep Word 1 True, Close 2])
       None"

definition collect_parameters :: "(string, pyval) dict \<Rightarrow> string \<Rightarrow> (string, pyval) dict" where
  "collect_parameters defs content =
     foldl (\<lambda>params m.
        let param_name = group m 1; param_value = group m 2
        in if dict_mem param_value params
           then dict_set params param_name (dict_get params param_value (PInt 0))
           else (case int_of_word param_value of
                   Some n \<Rightarrow> dict_set params param_name (PInt n)
                 | None \<Rightarrow> params))
       (foldl (\<lambda>params (k, v). dict_set params k v) [] defs)
       (re_finditer parameter_pattern content)"

definition type_sizes :: "(string, int) dict" where
  "type_sizes =
     [(''c_double'', 8), (''c_float'', 4), (''real64'', 8), (''real32'', 4), (''int64'', 8),
      (''int32'', 4)]"

fun dimension_sizes ::
  "host_eval \<Rightarrow> (string, pyval) dict \<Rightarrow> string list \<Rightarrow> int \<Rightarrow> error + int" where
  "dimension_sizes ev params [] total_elements = Inr total_elements"
| "dimension_sizes ev params (dim # dims) total_elements =
     (case evaluate_range ev dim params of
        Inl e \<Rightarrow> Inl e
      | Inr (size_of_dim, ds) \<Rightarrow> dimension_sizes ev params dims (total_elements * size_of_dim))"

text \<open>\<open>_calculate_array_size\<close>, given the defines and \<open>self.processed_contents\<close>.\<close>

definition calculate_array_size ::
  "host_eval \<Rightarrow> (string, pyval) dict \<Rightarrow> (string, string) dict \<Rightarrow> string \<Rightarrow> string
     \<Rightarrow> error + int" where
  "calculate_array_size ev defs processed_contents dims_str type_str =
     (let params = foldl (\<lambda>params (unit, content).
                       foldl (\<lambda>params (k, v). dict_set params k v) params
                         (collect_parameters defs content))
                     [] processed_contents;
          dims = map py_strip (py_split (CHR '','') dims_str)
      in case dimension_sizes ev params dims 1 of
           Inl e \<Rightarrow> Inl e
         | Inr total_elements \<Rightarrow> Inr (total_elements * dict_get type_sizes type_str 8))"

text \<open>The patterns of \<open>_analyze_memory_usage\<close>, in the order of the source.\<close>

definition iso_pattern :: pattern where
  "iso_pattern =
     Pattern True
       (lits ''use'' @ [Rep Space 1 True] @ lits ''iso_fortran_env''
        @ [Rep Space 0 True, Lit CHR '','', Rep Space 0 True] @ lits ''only''
        @ [Rep Space 0 True, Lit CHR '':'', Open 1, Rep (Except ''!'') 0 True, Close 1])
       None"

definition mapping_pattern :: pattern where
  "mapping_pattern =
     Pattern False
       ([Open 1, Rep Word 1 True, Close 1, Rep Space 0 True] @ lits ''=>''
        @ [Rep Space 0 True, Open 2, Rep Word 1 True, Close 2])
       None"

definition static_pattern :: pattern where
  "static_pattern =
     Pattern True
       (lits ''real''
        @ [Rep Space 0 True, Lit CHR ''('', Open 1, Rep Word 1 True, Close 1, Lit CHR '')'',
           Rep Space 0 True, Lit CHR '','', Rep Space 0 True]
        @ lits ''dimension''
        @ [Rep Space 0 True, Lit CHR ''('', Open 2, Rep (Except '')'') 1 True, Close 2,
           Lit CHR '')'', Rep Space 0 True]
        @ lits ''::'' @ [Rep Space 0 True, Open 3, Rep Word 1 True, Close 3])
       None"

definition allocatable_pattern :: pattern where
  "allocatable_pattern =
     Pattern True
       (lits ''real''
        @ [Rep Space 0 True, Lit CHR ''('', Open 1, Rep Word 1 True, Close 1, Lit CHR '')'',
           Rep Space 0 True, Lit CHR '','', Rep Space 0 True]
        @ lits ''allocatable'' @ [Rep Space 0 True] @ lits ''::''
        @ [Rep Space 0 True, Open 2, Rep Word 1 True, Close 2])
       (Some [Lit CHR ''('', Rep (Among '',:'') 0 True, Lit CHR '')''])"

definition derived_pattern :: pattern where
  "derived_pattern =
     Pattern True
       (lits ''type''
        @ [Rep Space 0 True, Lit CHR ''('', Open 1, Rep Word 1 True, Close 1, Lit CHR '')'',
           Rep AnyButNewline 0 False]
        @ lits ''::'' @ [Rep Space 0 True, Open 2, Rep Word 1 True, Close 2])
       None"

definition alloc_pattern :: "string \<Rightarrow> pattern" where
  "alloc_pattern name =
     Pattern True
       (lits ''allocate'' @ [Rep Space 0 True, Lit CHR ''(''] @ lits name
        @ [Rep Space 0 True, Lit CHR ''('', Open 1, Rep (Except '')'') 1 True, Close 1,
           Lit CHR '')'', Lit CHR '')''])
       None"

text \<open>An entry of a memory report: the four keys of an array entry (\<open>name\<close>, \<open>type\<close>,
  \<open>dimensions\<close>, \<open>estimated_size\<close>), or the single key \<open>name\<close> of a derived-type entry.\<close>

datatype memory_entry = ArrayEntry string string string int | NameEntry string

record memory_info =
  static_arrays :: "memory_entry list"
  allocatable_arrays :: "memory_entry list"
  derived_types :: "memory_entry list"

definition kind_mappings_of :: "string \<Rightarrow> (string, string) dict" where
  "kind_mappings_of content =
     foldl (\<lambda>km m.
        foldl (\<lambda>km mapping. dict_set km (group mapping 1) (group mapping 2)) km
          (re_finditer mapping_pattern (group m 1)))
       [] (re_finditer iso_pattern content)"

fun static_entries ::
  "host_eval \<Rightarrow> (string, pyval) dict \<Rightarrow> (string, string) dict \<Rightarrow> (nat \<times> string) list list
     \<Rightarrow> memory_entry list \<Rightarrow> error + memory_entry list" where
  "static_entries ev defs pcs [] acc = Inr acc"
| "static_entries ev defs pcs (m # ms) acc =
     (let type_param = group m 1; dims = group m 2; name = group m 3
      in case calculate_array_size ev defs pcs dims type_param of
           Inl e \<Rightarrow> Inl e
         | Inr sz \<Rightarrow> static_entries ev defs pcs ms (acc @ [ArrayEntry name type_param dims sz]))"

fun allocatable_entries ::
  "host_eval \<Rightarrow> (string, pyval) dict \<Rightarrow> (string, string) dict \<Rightarrow> (string, string) dict
     \<Rightarrow> string \<Rightarrow> (nat \<times> string) list list \<Rightarrow> memory_entry list \<Rightarrow> error + memory_entry list" where
  "allocatable_entries ev defs pcs km content [] acc = Inr acc"
| "allocatable_entries ev defs pcs km content (m # ms) acc =
     (let kind_param = group m 1; name = group m 2
      in case re_search (alloc_pattern name) content of
           None \<Rightarrow> allocatable_entries ev defs pcs km content ms acc
         | Some alloc_match \<Rightarrow>
             (let dims = group alloc_match 1;
                  actual_kind = dict_get km kind_param kind_param
              in case calculate_array_size ev defs pcs dims actual_kind of
                   Inl e \<Rightarrow> Inl e
                 | Inr sz \<Rightarrow>
                     allocatable_entries ev defs pcs km content ms
                       (acc @ [ArrayEntry name (''real('' @ actual_kind @ '')'') dims sz])))"

text \<open>\<open>_analyze_memory_usage\<close>. The dictionary \<open>param_values\<close> it builds is never read and
  is left out.\<close>

definition analyze_memory_usage ::
  "host_eval \<Rightarrow> (string, pyval) dict \<Rightarrow> (string, string) dict \<Rightarrow> string \<Rightarrow> error + memory_info" where
  "analyze_memory_usage ev defs pcs content =
     (let km = kind_mappings_of content
      in case static_entries ev defs pcs (re_finditer static_pattern content) [] of
           Inl e \<Rightarrow> Inl e
         | Inr statics \<Rightarrow>
             (case allocatable_entries ev defs pcs km content
                     (re_finditer allocatable_pattern content) [] of
                Inl e \<Rightarrow> Inl e
              | Inr allocs \<Rightarrow>
                  Inr \<lparr>static_arrays = statics, allocatable_arrays = allocs,
                       derived_types =
                         map (\<lambda>m. NameEntry (group m 1)) (re_finditer derived_pattern content)\<rparr>))"

definition find_dependencies_pattern :: pattern where
  "find_dependencies_pattern =
     Pattern True (lits ''use'' @ [Rep Space 1 True, Open 1, Rep Word 1 True, Close 1])
       (Some ([Rep Space 0 True, Lit CHR '','', Rep Space 0 True] @ lits ''only''
              @ [Rep Space 0 True, Lit CHR '':'']))"

definition find_dependencies :: "string \<Rightarrow> string list" where
  "find_dependencies content =
     foldl (\<lambda>deps m. if py_lower (group m 1) \<notin> set deps then deps @ [py_lower (group m 1)] else deps)
       [] (re_finditer find_dependencies_pattern content)"

section \<open>The analysis orchestrator\<close>

text \<open>A result of \<open>analyze_module\<close>: the kind under which the unit is stored and the four
  keys of \<open>unit_result\<close>.\<close>

datatype unit_kind = Module | Program

record unit_result =
  kind :: unit_kind
  unit_name :: string
  file_path :: string
  memory_usage :: memory_info
  unit_dependencies :: "string list"

text \<open>\<open>EnhancedModuleAnalyzer\<close>: the directory behind \<open>source_root\<close>, the state of its
  \<open>PreprocessorParser\<close> and \<open>processed_contents\<close>.\<close>

record EnhancedModuleAnalyzer =
  source_root :: "source_file list"
  preprocessor :: PreprocessorState
  processed_contents :: "(string, string) dict"

fun process_units ::
  "host_eval \<Rightarrow> ModuleDependencyAnalyzer \<Rightarrow> string list \<Rightarrow> EnhancedModuleAnalyzer
     \<Rightarrow> (string, unit_result) dict
     \<Rightarrow> analysis_error + ((string, unit_result) dict \<times> EnhancedModuleAnalyzer)" where
  "process_units ev dep [] self results = Inr (results, self)"
| "process_units ev dep (unit # units) self results =
     (case (case map_of (modules dep) unit of Some f \<Rightarrow> Some f | None \<Rightarrow> map_of (programs dep) unit) of
        None \<Rightarrow> process_units ev dep units self results
      | Some unit_file \<Rightarrow>
          (case parse_file ev (preprocessor self) (file_content unit_file) of
             Inl e \<Rightarrow> Inl (Failed e)
           | Inr (processed_content, st) \<Rightarrow>
               (let pcs = dict_set (processed_contents self) unit processed_content;
                    self1 = self\<lparr>preprocessor := st, processed_contents := pcs\<rparr>
                in case analyze_memory_usage ev (defines' st) pcs processed_content of
                     Inl e \<Rightarrow> Inl (Failed e)
                   | Inr mem \<Rightarrow>
                       process_units ev dep units self1
                         (dict_set results unit
                            \<lparr>kind = (if dict_mem unit (modules dep) then Module else Program),
                             unit_name = unit, file_path = path_str unit_file,
                             memory_usage = mem,
                             unit_dependencies = find_dependencies processed_content\<rparr>))))"

definition analyze_module ::
  "host_eval \<Rightarrow> nat \<Rightarrow> (string list \<Rightarrow> string list) \<Rightarrow> EnhancedModuleAnalyzer \<Rightarrow> string
     \<Rightarrow> analysis_error + ((string, unit_result) dict \<times> EnhancedModuleAnalyzer)" where
  "analyze_module ev depth set_order self filename =
     (case analyze_file depth set_order (source_root self) filename of
        Inl e \<Rightarrow> Inl e
      | Inr (unit_order, dep) \<Rightarrow>
          process_units ev dep unit_order (self\<lparr>processed_contents := []\<rparr>) [])"

section \<open>Notions used to state the properties\<close>

text \<open>The edges of the dependency graph held in \<open>self.dependencies\<close>, the names that occur
  in it, and the invariant of the traversal: every needed name was visited, no name is needed
  twice, and every visited name that is not on the recursion stack \<open>S\<close> has all its
  dependencies among the needed names.\<close>

definition depends_on :: "(string, string list) dict \<Rightarrow> (string \<times> string) set" where
  "depends_on g = {(name, dep). dep \<in> set (dict_get g name [])}"

definition graph_names :: "(string, string list) dict \<Rightarrow> string set" where
  "graph_names g = set (map fst g) \<union> (\<Union>deps \<in> set (map snd g). set deps)"

definition dfs_inv ::
  "(string, string list) dict \<Rightarrow> string set \<Rightarrow> string set \<times> string list \<Rightarrow> bool" where
  "dfs_inv g S s =
     (case s of (visited, needed) \<Rightarrow>
        set needed \<subseteq> visited \<and> distinct needed
        \<and> (\<forall>v \<in> visited. v \<notin> S \<longrightarrow> set (dict_get g v []) \<subseteq> set needed))"

section \<open>Properties\<close>

lemma py_split_nonempty: "py_split c s \<noteq> []"
  by (induction s) (auto split: list.splits)

subsection \<open>Lines starting with a hash\<close>

lemma parse_loop_keeps:
  "parse_loop ev lines i st out = Inr (out', st') \<Longrightarrow>
     \<exists>kept. out' = out @ kept \<and>
       (\<forall>l \<in> set kept. l \<in> set lines \<and> \<not> py_startswith (py_strip l) ''#'')"
proof (induction ev lines i st out rule: parse_loop.induct)
  case (1 ev lines i st out)
  show ?case
  proof (cases "i < length lines")
    case False
    with "1.prems" show ?thesis by (simp add: parse_loop.simps)
  next
    case True
    note lt = True
    show ?thesis
    proof (cases "py_startswith (py_strip (lines ! i)) ''#''")
      case True
      with lt "1.prems" obtain s1 i1 where
        h: "handle_preprocessor_directive ev st lines i = Inr (s1, i1)"
        and r: "parse_loop ev lines (i1 + 1) s1 out = Inr (out', st')"
        by (subst (asm) parse_loop.simps) (auto simp: Let_def split: sum.splits)
      from "1.IH"(1)[OF lt refl True h refl r] show ?thesis .
    next
      case False
      note nohash = False
      show ?thesis
      proof (cases "is_active st")
        case True
        with lt nohash "1.prems" have
          r: "parse_loop ev lines (i + 1) st (out @ [lines ! i]) = Inr (out', st')"
          by (subst (asm) parse_loop.simps) (simp add: Let_def)
        from "1.IH"(2)[OF lt refl nohash True r] obtain kept where
          k: "out' = (out @ [lines ! i]) @ kept"
          "\<forall>l \<in> set kept. l \<in> set lines \<and> \<not> py_startswith (py_strip l) ''#''" by blast
        have "out' = out @ (lines ! i # kept)" using k(1) by simp
        moreover have "\<forall>l \<in> set (lines ! i # kept). l \<in> set lines \<and> \<not> py_startswith (py_strip l) ''#''"
          using k(2) lt nohash by simp
        ultimately show ?thesis by blast
      next
        case False
        with lt nohash "1.prems" have
          r: "parse_loop ev lines (i + 1) st out = Inr (out', st')"
          by (subst (asm) parse_loop.simps) (simp add: Let_def)
        from "1.IH"(3)[OF lt refl nohash False r] show ?thesis .
      qed
    qed
  qed
qed

lemma unrecognised_directive:
  assumes "i < length lines"
    and "\<not> py_startswith (py_strip (lines ! i)) ''#ifdef''"
    and "\<not> py_startswith (py_strip (lines ! i)) ''#ifndef''"
    and "\<not> py_startswith (py_strip (lines ! i)) ''#if''"
    and "\<not> py_startswith (py_strip (lines ! i)) ''#elif''"
    and "\<not> py_startswith (py_strip (lines ! i)) ''#else''"
    and "\<not> py_startswith (py_strip (lines ! i)) ''#endif''"
  shows "handle_preprocessor_directive ev st lines i = Inr (st, Suc i)"
  using assms by (simp add: handle_preprocessor_directive_def Let_def)

text \<open>
  C10. A line whose stripped form begins with \<open>#\<close> never reaches the output of
  \<open>parse_file\<close>: whatever the evaluator, the state and the content, every line of the
  output is a line of the content whose stripped form does not begin with \<open>#\<close>.
  And a \<open>#\<close> line that starts with none of the six directive prefixes is consumed by
  the handler with the state, and so the activation stack, unchanged.
\<close>

theorem hash_lines_never_kept:
  "(parse_file ev st content = Inr (text, st') \<longrightarrow>
      (\<exists>kept. text = py_join [CHR 0x0A] kept \<and>
         (\<forall>l \<in> set kept. l \<in> set (py_split (CHR 0x0A) content)
                            \<and> \<not> py_startswith (py_strip l) ''#'')))
   \<and> (i < length lines \<and> py_startswith (py_strip (lines ! i)) ''#''
        \<and> \<not> py_startswith (py_strip (lines ! i)) ''#ifdef''
        \<and> \<not> py_startswith (py_strip (lines ! i)) ''#ifndef''
        \<and> \<not> py_startswith (py_strip (lines ! i)) ''#if''
        \<and> \<not> py_startswith (py_strip (lines ! i)) ''#elif''
        \<and> \<not> py_startswith (py_strip (lines ! i)) ''#else''
        \<and> \<not> py_startswith (py_strip (lines ! i)) ''#endif''
      \<longrightarrow> handle_preprocessor_directive ev st lines i = Inr (st, Suc i))"
proof (intro conjI impI)
  assume "parse_file ev st content = Inr (text, st')"
  then obtain out where
    l: "parse_loop ev (py_split (CHR 0x0A) content) 0 st [] = Inr (out, st')"
    and t: "text = py_join [CHR 0x0A] out"
    by (auto simp: parse_file_def split: sum.splits)
  from parse_loop_keeps[OF l] t
  show "\<exists>kept. text = py_join [CHR 0x0A] kept \<and>
         (\<forall>l \<in> set kept. l \<in> set (py_split (CHR 0x0A) content)
                            \<and> \<not> py_startswith (py_strip l) ''#'')"
    by auto
next
  assume "i < length lines \<and> py_startswith (py_strip (lines ! i)) ''#''
        \<and> \<not> py_startswith (py_strip (lines ! i)) ''#ifdef''
        \<and> \<not> py_startswith (py_strip (lines ! i)) ''#ifndef''
        \<and> \<not> py_startswith (py_strip (lines ! i)) ''#if''
        \<and> \<not> py_startswith (py_strip (lines ! i)) ''#elif''
        \<and> \<not> py_startswith (py_strip (lines ! i)) ''#else''
        \<and> \<not> py_startswith (py_strip (lines ! i)) ''#endif''"
  then show "handle_preprocessor_directive ev st lines i = Inr (st, Suc i)"
    by (simp add: unrecognised_directive)
qed

theorem hash_lines_never_kept_witness:
  "parse_file py_eval_atom (initial_state []) ''x\<newline>#pragma once'' = Inr (''x'', initial_state [])
   \<and> (\<exists>kept. ''x'' = py_join [CHR 0x0A] kept \<and>
         (\<forall>l \<in> set kept. l \<in> set (py_split (CHR 0x0A) ''x\<newline>#pragma once'')
                            \<and> \<not> py_startswith (py_strip l) ''#''))
   \<and> handle_preprocessor_directive py_eval_atom (initial_state []) [''#pragma once''] 0
        = Inr (initial_state [], Suc 0)"
proof -
  have run: "parse_file py_eval_atom (initial_state []) ''x\<newline>#pragma once''
               = Inr (''x'', initial_state [])"
    by code_simp
  have pre: "0 < length [''#pragma once''] \<and> py_startswith (py_strip ([''#pragma once''] ! 0)) ''#''
        \<and> \<not> py_startswith (py_strip ([''#pragma once''] ! 0)) ''#ifdef''
        \<and> \<not> py_startswith (py_strip ([''#pragma once''] ! 0)) ''#ifndef''
        \<and> \<not> py_startswith (py_strip ([''#pragma once''] ! 0)) ''#if''
        \<and> \<not> py_startswith (py_strip ([''#pragma once''] ! 0)) ''#elif''
        \<and> \<not> py_startswith (py_strip ([''#pragma once''] ! 0)) ''#else''
        \<and> \<not> py_startswith (py_strip ([''#pragma once''] ! 0)) ''#endif''"
    by code_simp
  from hash_lines_never_kept[of py_eval_atom "initial_state []" "''x\<newline>#pragma once''"
      "''x''" "initial_state []" 0 "[''#pragma once'']"] run pre
  show ?thesis by blast
qed

subsection \<open>The activation stack\<close>

lemma split_ws_aux_nonempty:
  "w \<noteq> [] \<or> (\<exists>c \<in> set xs. \<not> is_space c) \<Longrightarrow> split_ws_aux w xs \<noteq> []"
  by (induction w xs rule: split_ws_aux.induct) auto

lemma not_space_hash: "\<not> is_space (CHR ''#'')"
  by (simp add: is_space_def)

lemma last_word_of_directive:
  assumes "py_startswith line (CHR ''#'' # p)"
  shows "\<exists>w. last_word line = Inr w"
proof -
  from assms obtain rest where "line = CHR ''#'' # rest"
    by (cases line) (auto simp: py_startswith_def)
  then have "py_split_ws line \<noteq> []"
    unfolding py_split_ws_def using split_ws_aux_nonempty[of "[]" line] not_space_hash by auto
  then show ?thesis
    by (auto simp: last_word_def split: list.splits)
qed

lemma substitute_defines_plain:
  "list_all plain_define ds \<Longrightarrow> \<exists>e'. substitute_defines ds e = Inr e'"
  by (induction ds arbitrary: e) auto

lemma substitute_expression_plain:
  "list_all plain_define ds \<Longrightarrow> \<exists>e. substitute_expression ds expr = Inr e"
  by (simp add: substitute_expression_def Let_def substitute_defines_plain)

lemma evaluate_only_unanswered:
  assumes "list_all plain_define (defines' st)"
    and "evaluate_preprocessor_expression ev st expr = Inl e"
  shows "e = Unanswered"
proof -
  from substitute_expression_plain[OF assms(1)] obtain e0 where
    "substitute_expression (defines' st) expr = Inr e0" by blast
  with assms(2) show ?thesis
    by (auto simp: evaluate_preprocessor_expression_def split: outcome.splits)
qed

lemma handle_keeps_defines:
  "handle_preprocessor_directive ev st lines i = Inr (st', i') \<Longrightarrow> defines' st' = defines' st"
  by (auto simp: handle_preprocessor_directive_def Let_def push_def pop_def
      split: if_splits sum.splits prod.splits)

lemma handle_only_unanswered:
  assumes "i < length lines" and "list_all plain_define (defines' st)"
    and "handle_preprocessor_directive ev st lines i = Inl e"
  shows "e = Unanswered"
proof -
  have a: "\<exists>w. last_word (py_strip (lines ! i)) = Inr w"
    if "py_startswith (py_strip (lines ! i)) ''#ifdef''" using that last_word_of_directive by blast
  have b: "\<exists>w. last_word (py_strip (lines ! i)) = Inr w"
    if "py_startswith (py_strip (lines ! i)) ''#ifndef''" using that last_word_of_directive by blast
  have p: "list_all plain_define (defines' (pop st))"
    using assms(2) by (simp add: pop_def)
  from assms a b show ?thesis
    by (auto simp: handle_preprocessor_directive_def Let_def
        split: if_splits sum.splits prod.splits
        dest: evaluate_only_unanswered[OF assms(2)] evaluate_only_unanswered[OF p])
qed

lemma parse_loop_only_unanswered:
  "list_all plain_define (defines' st) \<Longrightarrow> parse_loop ev lines i st out = Inl e \<Longrightarrow>
     e = Unanswered"
proof (induction ev lines i st out rule: parse_loop.induct)
  case (1 ev lines i st out)
  note plain = "1.prems"(1) and fails = "1.prems"(2)
  show ?case
  proof (cases "i < length lines")
    case False
    with fails show ?thesis by (simp add: parse_loop.simps)
  next
    case True
    note lt = True
    show ?thesis
    proof (cases "py_startswith (py_strip (lines ! i)) ''#''")
      case True
      note hash = True
      show ?thesis
      proof (cases "handle_preprocessor_directive ev st lines i")
        case (Inl e')
        with lt hash fails have "e = e'"
          by (subst (asm) parse_loop.simps) (simp add: Let_def)
        with Inl lt plain show ?thesis using handle_only_unanswered by blast
      next
        case (Inr r)
        obtain s1 i1 where r: "r = (s1, i1)" by (cases r)
        with Inr lt hash fails have f: "parse_loop ev lines (i1 + 1) s1 out = Inl e"
          by (subst (asm) parse_loop.simps) (simp add: Let_def)
        have h: "handle_preprocessor_directive ev st lines i = Inr (s1, i1)"
          using Inr r by simp
        have "list_all plain_define (defines' s1)"
          using plain handle_keeps_defines[OF h] by simp
        from "1.IH"(1)[OF lt refl hash h refl this f] show ?thesis .
      qed
    next
      case False
      note nohash = False
      show ?thesis
      proof (cases "is_active st")
        case True
        with lt nohash fails have "parse_loop ev lines (i + 1) st (out @ [lines ! i]) = Inl e"
          by (subst (asm) parse_loop.simps) (simp add: Let_def)
        from "1.IH"(2)[OF lt refl nohash True plain this] show ?thesis .
      next
        case False
        with lt nohash fails have "parse_loop ev lines (i + 1) st out = Inl e"
          by (subst (asm) parse_loop.simps) (simp add: Let_def)
        from "1.IH"(3)[OF lt refl nohash False plain this] show ?thesis .
      qed
    qed
  qed
qed

lemma startswith_append: "py_startswith s p \<Longrightarrow> \<exists>r. s = p @ r"
  by (metis append_take_drop_id py_startswith_def)

lemma endif_not_others:
  assumes "py_startswith s ''#endif''"
  shows "\<not> py_startswith s ''#ifdef''" "\<not> py_startswith s ''#ifndef''" "\<not> py_startswith s ''#if''"
    "\<not> py_startswith s ''#elif''" "\<not> py_startswith s ''#else''"
  using startswith_append[OF assms] by (auto simp: py_startswith_def)

lemma else_not_others:
  assumes "py_startswith s ''#else''"
  shows "\<not> py_startswith s ''#ifdef''" "\<not> py_startswith s ''#ifndef''" "\<not> py_startswith s ''#if''"
    "\<not> py_startswith s ''#elif''"
  using startswith_append[OF assms] by (auto simp: py_startswith_def)

lemma elif_not_others:
  assumes "py_startswith s ''#elif''"
  shows "\<not> py_startswith s ''#ifdef''" "\<not> py_startswith s ''#ifndef''" "\<not> py_startswith s ''#if''"
  using startswith_append[OF assms] by (auto simp: py_startswith_def)

lemma pop_push: "pop (push v st) = st"
  by (simp add: pop_def push_def)

text \<open>
  C3, as stated, fails: the guard of \<open>#endif\<close> is \<open>if self.state.active_blocks\<close>, which
  holds for the stack \<open>[True]\<close>, so a file that consists of one unmatched \<open>#endif\<close> leaves
  the stack empty.
\<close>

theorem root_flag_popped:
  "parse_file py_eval_atom (initial_state []) ''#endif''
     = Inr ([], \<lparr>defines' = [], active_blocks = []\<rparr>)"
  by code_simp

text \<open>
  C3, amended. The directives \<open>#endif\<close>, \<open>#else\<close> and \<open>#elif\<close> never fail on the
  stack, and the root flag is not protected: \<open>#endif\<close> removes the last flag of any
  non-empty stack, the root included, and leaves an empty stack empty; \<open>#else\<close> replaces
  the last flag by its negation, or leaves an empty stack empty; \<open>#elif\<close> on an empty
  stack changes nothing; and an empty stack counts as active. With a symbol table of plain
  defines, \<open>parse_file\<close> fails on no content except where the host evaluator gives no
  answer.
\<close>

theorem pops_reach_the_root:
  assumes "i < length lines"
  shows "(py_startswith (py_strip (lines ! i)) ''#endif'' \<longrightarrow>
            (\<exists>st'. handle_preprocessor_directive ev st lines i = Inr (st', Suc i)
                   \<and> active_blocks st' = butlast (active_blocks st)))
       \<and> (py_startswith (py_strip (lines ! i)) ''#else'' \<longrightarrow>
            (\<exists>st'. handle_preprocessor_directive ev st lines i = Inr (st', Suc i)
                   \<and> active_blocks st' =
                       (if active_blocks st = [] then []
                        else butlast (active_blocks st) @ [PBool (\<not> truthy (last (active_blocks st)))])))
       \<and> (py_startswith (py_strip (lines ! i)) ''#elif'' \<and> active_blocks st = [] \<longrightarrow>
            handle_preprocessor_directive ev st lines i = Inr (st, Suc i))
       \<and> (active_blocks st = [] \<longrightarrow> is_active st)
       \<and> (list_all plain_define (defines' st) \<and> parse_file ev st content = Inl e \<longrightarrow>
            e = Unanswered)"
proof (intro conjI impI)
  assume h: "py_startswith (py_strip (lines ! i)) ''#endif''"
  show "\<exists>st'. handle_preprocessor_directive ev st lines i = Inr (st', Suc i)
                   \<and> active_blocks st' = butlast (active_blocks st)"
    using assms h endif_not_others[OF h]
    by (simp add: handle_preprocessor_directive_def Let_def pop_def)
next
  assume h: "py_startswith (py_strip (lines ! i)) ''#else''"
  show "\<exists>st'. handle_preprocessor_directive ev st lines i = Inr (st', Suc i)
                   \<and> active_blocks st' =
                       (if active_blocks st = [] then []
                        else butlast (active_blocks st) @ [PBool (\<not> truthy (last (active_blocks st)))])"
    using assms h else_not_others[OF h]
    by (simp add: handle_preprocessor_directive_def Let_def pop_def push_def)
next
  assume "py_startswith (py_strip (lines ! i)) ''#elif'' \<and> active_blocks st = []"
  then have h: "py_startswith (py_strip (lines ! i)) ''#elif''" and e: "active_blocks st = []"
    by simp_all
  show "handle_preprocessor_directive ev st lines i = Inr (st, Suc i)"
    using assms h e elif_not_others[OF h]
    by (simp add: handle_preprocessor_directive_def Let_def)
next
  assume "active_blocks st = []"
  then show "is_active st" by (simp add: is_active_def)
next
  assume "list_all plain_define (defines' st) \<and> parse_file ev st content = Inl e"
  then show "e = Unanswered"
    by (auto simp: parse_file_def split: sum.splits dest: parse_loop_only_unanswered)
qed

theorem pops_reach_the_root_witness:
  "(0 < length [''#endif''] \<and> py_startswith (py_strip ([''#endif''] ! 0)) ''#endif''
      \<and> (\<exists>st'. handle_preprocessor_directive py_eval_atom (initial_state []) [''#endif''] 0
                   = Inr (st', Suc 0) \<and> active_blocks st' = []))
   \<and> (py_startswith (py_strip ([''#else''] ! 0)) ''#else''
      \<and> (\<exists>st'. handle_preprocessor_directive py_eval_atom (initial_state []) [''#else''] 0
                   = Inr (st', Suc 0) \<and> active_blocks st' = [PBool False]))
   \<and> (py_startswith (py_strip ([''#elif 1''] ! 0)) ''#elif''
      \<and> handle_preprocessor_directive py_eval_atom \<lparr>defines' = [], active_blocks = []\<rparr> [''#elif 1''] 0
           = Inr (\<lparr>defines' = [], active_blocks = []\<rparr>, Suc 0))
   \<and> is_active \<lparr>defines' = [], active_blocks = []\<rparr>
   \<and> (list_all plain_define (defines' (initial_state [(''DEBUG'', PBool True)]))
      \<and> parse_file py_eval_atom (initial_state [(''DEBUG'', PBool True)]) ''#if 1+1''
           = Inl Unanswered)"
proof -
  have a: "0 < length [''#endif'']" "py_startswith (py_strip ([''#endif''] ! 0)) ''#endif''"
    by code_simp+
  have b: "0 < length [''#else'']" "py_startswith (py_strip ([''#else''] ! 0)) ''#else''"
    by code_simp+
  have c: "0 < length [''#elif 1'']" "py_startswith (py_strip ([''#elif 1''] ! 0)) ''#elif''"
    by code_simp+
  have s: "active_blocks (initial_state []) = [PBool True]"
    by (simp add: initial_state_def)
  have d: "list_all plain_define (defines' (initial_state [(''DEBUG'', PBool True)]))"
    by code_simp
  have f: "parse_file py_eval_atom (initial_state [(''DEBUG'', PBool True)]) ''#if 1+1''
           = Inl Unanswered"
    by code_simp
  from pops_reach_the_root[OF a(1), of py_eval_atom "initial_state []"] a(2) s
  have 1: "\<exists>st'. handle_preprocessor_directive py_eval_atom (initial_state []) [''#endif''] 0
                   = Inr (st', Suc 0) \<and> active_blocks st' = []"
    by simp
  from pops_reach_the_root[OF b(1), of py_eval_atom "initial_state []"] b(2) s
  have 2: "\<exists>st'. handle_preprocessor_directive py_eval_atom (initial_state []) [''#else''] 0
                   = Inr (st', Suc 0) \<and> active_blocks st' = [PBool False]"
    by simp
  from pops_reach_the_root[OF c(1), of py_eval_atom "\<lparr>defines' = [], active_blocks = []\<rparr>"] c(2)
  have 3: "handle_preprocessor_directive py_eval_atom \<lparr>defines' = [], active_blocks = []\<rparr> [''#elif 1''] 0
           = Inr (\<lparr>defines' = [], active_blocks = []\<rparr>, Suc 0)"
    and 4: "is_active \<lparr>defines' = [], active_blocks = []\<rparr>"
    by simp_all
  from pops_reach_the_root[OF a(1), of py_eval_atom "initial_state [(''DEBUG'', PBool True)]"
      "''#if 1+1''" Unanswered] d f
  have 5: "Unanswered = Unanswered" by simp
  from a b c 1 2 3 4 5 d f show ?thesis by blast
qed

subsection \<open>Directive expressions\<close>

text \<open>
  C7, as stated, fails for a non-boolean result: the evaluator returns \<open>bool(eval(expr))\<close>,
  so the expression \<open>1\<close> evaluates to true, with no diagnostic.
\<close>

theorem non_boolean_result_is_truthy:
  "evaluate_preprocessor_expression py_eval_atom (initial_state []) ''1'' = Inr (True, [])"
  by code_simp

text \<open>
  C7, amended. Let the symbol table hold plain defines only; then the substitutions always
  yield a text. When the evaluation of that text raises an exception that
  \<open>except Exception\<close> catches (\<open>SyntaxError\<close> for a syntax error, \<open>NameError\<close> for an
  unknown symbol), the evaluator returns false with one diagnostic, and an \<open>#if\<close> line
  with such an expression pushes false. When the evaluation returns a value, boolean or
  not, the result is the truth value of that value and there is no diagnostic.
\<close>

theorem failing_expression_is_false:
  "(list_all plain_define (defines' st) \<longrightarrow>
       (\<exists>e. substitute_expression (defines' st) expr = Inr e))
   \<and> (substitute_expression (defines' st) expr = Inr e \<and> ev preprocessor_scope e = Raises \<longrightarrow>
       evaluate_preprocessor_expression ev st expr
         = Inr (False, [CouldNotEvaluateExpression e]))
   \<and> (substitute_expression (defines' st) expr = Inr e \<and> ev preprocessor_scope e = Returns v \<longrightarrow>
       evaluate_preprocessor_expression ev st expr = Inr (truthy v, []))
   \<and> (i < length lines \<and> py_startswith (py_strip (lines ! i)) ''#if''
        \<and> \<not> py_startswith (py_strip (lines ! i)) ''#ifdef''
        \<and> \<not> py_startswith (py_strip (lines ! i)) ''#ifndef''
        \<and> substitute_expression (defines' st) (py_strip (drop 3 (py_strip (lines ! i)))) = Inr e'
        \<and> ev preprocessor_scope e' = Raises
      \<longrightarrow> handle_preprocessor_directive ev st lines i = Inr (push (PBool False) st, Suc i))"
  by (simp add: evaluate_preprocessor_expression_def handle_preprocessor_directive_def Let_def
      substitute_expression_plain)

theorem failing_expression_is_false_witness:
  "list_all plain_define (defines' (initial_state [(''DEBUG'', PBool True)]))
   \<and> substitute_expression (defines' (initial_state [(''DEBUG'', PBool True)])) ''UNKNOWN''
       = Inr ''UNKNOWN''
   \<and> py_eval_atom preprocessor_scope ''UNKNOWN'' = Raises
   \<and> evaluate_preprocessor_expression py_eval_atom (initial_state [(''DEBUG'', PBool True)])
         ''UNKNOWN''
       = Inr (False, [CouldNotEvaluateExpression ''UNKNOWN''])
   \<and> substitute_expression (defines' (initial_state [(''DEBUG'', PBool True)])) ''2'' = Inr ''2''
   \<and> py_eval_atom preprocessor_scope ''2'' = Returns (PInt 2)
   \<and> evaluate_preprocessor_expression py_eval_atom (initial_state [(''DEBUG'', PBool True)]) ''2''
       = Inr (True, [])
   \<and> handle_preprocessor_directive py_eval_atom (initial_state [(''DEBUG'', PBool True)])
         [''#if UNKNOWN''] 0
       = Inr (push (PBool False) (initial_state [(''DEBUG'', PBool True)]), Suc 0)"
proof -
  have p: "list_all plain_define (defines' (initial_state [(''DEBUG'', PBool True)]))"
    by code_simp
  have s: "substitute_expression (defines' (initial_state [(''DEBUG'', PBool True)])) ''UNKNOWN''
       = Inr ''UNKNOWN''"
    by code_simp
  have a: "py_eval_atom preprocessor_scope ''UNKNOWN'' = Raises"
    by code_simp
  have t: "substitute_expression (defines' (initial_state [(''DEBUG'', PBool True)])) ''2'' = Inr ''2''"
    by code_simp
  have b: "py_eval_atom preprocessor_scope ''2'' = Returns (PInt 2)"
    by code_simp
  have c: "0 < length [''#if UNKNOWN''] \<and> py_startswith (py_strip ([''#if UNKNOWN''] ! 0)) ''#if''
        \<and> \<not> py_startswith (py_strip ([''#if UNKNOWN''] ! 0)) ''#ifdef''
        \<and> \<not> py_startswith (py_strip ([''#if UNKNOWN''] ! 0)) ''#ifndef''
        \<and> substitute_expression (defines' (initial_state [(''DEBUG'', PBool True)]))
                (py_strip (drop 3 (py_strip ([''#if UNKNOWN''] ! 0)))) = Inr ''UNKNOWN''"
    by code_simp
  from failing_expression_is_false[of "initial_state [(''DEBUG'', PBool True)]" "''UNKNOWN''"
      "''UNKNOWN''" py_eval_atom "PInt 2" 0 "[''#if UNKNOWN'']" "''UNKNOWN''"] s a c
  have 1: "evaluate_preprocessor_expression py_eval_atom (initial_state [(''DEBUG'', PBool True)])
         ''UNKNOWN''
       = Inr (False, [CouldNotEvaluateExpression ''UNKNOWN''])"
    and 2: "handle_preprocessor_directive py_eval_atom (initial_state [(''DEBUG'', PBool True)])
         [''#if UNKNOWN''] 0
       = Inr (push (PBool False) (initial_state [(''DEBUG'', PBool True)]), Suc 0)"
    by simp_all
  from failing_expression_is_false[of "initial_state [(''DEBUG'', PBool True)]" "''2''"
      "''2''" py_eval_atom "PInt 2" 0 "[''#if UNKNOWN'']" "''UNKNOWN''"] t b
  have 3: "evaluate_preprocessor_expression py_eval_atom (initial_state [(''DEBUG'', PBool True)]) ''2''
       = Inr (True, [])"
    by simp
  from p s a t b 1 2 3 show ?thesis by blast
qed

text \<open>
  C1. For the expression below, which is an attribute chain with a call and not arithmetic
  or boolean syntax, the substitutions change nothing, and what the evaluator returns is
  whatever the host's \<open>eval\<close> makes of the unchanged text: nothing in the function
  restricts the text to a grammar.
\<close>

theorem expression_reaches_host_unchanged:
  "evaluate_preprocessor_expression ev (initial_state []) ''().__class__.__base__.__subclasses__()''
     = (case ev preprocessor_scope ''().__class__.__base__.__subclasses__()'' of
          Returns v \<Rightarrow> Inr (truthy v, [])
        | Raises \<Rightarrow> Inr (False, [CouldNotEvaluateExpression ''().__class__.__base__.__subclasses__()''])
        | NoAnswer \<Rightarrow> Inl Unanswered)"
proof -
  have "substitute_expression (defines' (initial_state [])) ''().__class__.__base__.__subclasses__()''
          = Inr ''().__class__.__base__.__subclasses__()''"
    by code_simp
  then show ?thesis
    by (simp add: evaluate_preprocessor_expression_def)
qed

subsection \<open>The elif chain\<close>

text \<open>
  C2, as stated, fails. With \<open>true\<close> and \<open>false\<close> defined in the symbol table, the output
  of the sequence is empty: the loop of \<open>parse_file\<close> advances the index once more after
  every directive, so the lines \<open>a\<close>, \<open>b\<close> and \<open>c\<close> are never looked at.
\<close>

theorem elif_chain_output:
  "parse_file py_eval_atom (initial_state [(''true'', PBool True), (''false'', PBool False)])
     ''#if false\<newline>a\<newline>#elif true\<newline>b\<newline>#elif true\<newline>c\<newline>#endif''
   = Inr ([], initial_state [(''true'', PBool True), (''false'', PBool False)])"
  by code_simp

text \<open>
  With an empty line after each directive to take the extra step, the lines of both true
  branches are kept: a later \<open>#elif\<close> is not shut off by an earlier true branch.
\<close>

lemma elif_chain_padded:
  "parse_file py_eval_atom (initial_state [(''true'', PBool True), (''false'', PBool False)])
     ''#if false\<newline>\<newline>a\<newline>#elif true\<newline>\<newline>b\<newline>#elif true\<newline>\<newline>c\<newline>#endif''
   = Inr (''b\<newline>c'', initial_state [(''true'', PBool True), (''false'', PBool False)])"
  by code_simp

text \<open>
  C2, amended. On the directive lines of the sequence, with \<open>false\<close> evaluating to false
  and \<open>true\<close> to true: \<open>#if false\<close> pushes False; each \<open>#elif true\<close> pops the last flag
  and pushes True, so the stack after the second \<open>#elif\<close> is the stack after the first and
  the engine is exactly as active in the third branch as in the second; \<open>#endif\<close> restores
  the stack. Which of the lines \<open>a\<close>, \<open>b\<close>, \<open>c\<close> reach the output is not part of the
  statement.
\<close>

theorem elif_replaces_top_flag:
  assumes f: "evaluate_preprocessor_expression ev st ''false'' = Inr (False, d1)"
      and t: "evaluate_preprocessor_expression ev st ''true'' = Inr (True, d2)"
      and l: "lines = [''#if false'', ''a'', ''#elif true'', ''b'', ''#elif true'', ''c'', ''#endif'']"
  shows "handle_preprocessor_directive ev st lines 0 = Inr (push (PBool False) st, 1)
       \<and> handle_preprocessor_directive ev (push (PBool False) st) lines 2 = Inr (push (PBool True) st, 3)
       \<and> handle_preprocessor_directive ev (push (PBool True) st) lines 4 = Inr (push (PBool True) st, 5)
       \<and> handle_preprocessor_directive ev (push (PBool True) st) lines 6 = Inr (st, 7)
       \<and> is_active (push (PBool True) st) = is_active st"
proof -
  have l0: "py_strip (lines ! 0) = ''#if false''" "py_strip (lines ! 2) = ''#elif true''"
    "py_strip (lines ! 4) = ''#elif true''" "py_strip (lines ! 6) = ''#endif''"
    unfolding l by code_simp+
  have e: "py_strip '' false'' = ''false''" "py_strip '' true'' = ''true''"
    by code_simp+
  have len: "length lines = 7" by (simp add: l)
  have ne: "active_blocks (push v st) \<noteq> []" for v by (simp add: push_def)
  have ev1: "evaluate_preprocessor_expression ev (pop (push v st)) ''true'' = Inr (True, d2)" for v
    using t by (simp add: pop_push)
  have 1: "handle_preprocessor_directive ev st lines 0 = Inr (push (PBool False) st, 1)"
    by (simp add: handle_preprocessor_directive_def Let_def len l0 e f py_startswith_def)
  have 2: "handle_preprocessor_directive ev (push (PBool False) st) lines 2 = Inr (push (PBool True) st, 3)"
    by (simp add: handle_preprocessor_directive_def Let_def len l0 e t ne pop_push py_startswith_def)
  have 3: "handle_preprocessor_directive ev (push (PBool True) st) lines 4 = Inr (push (PBool True) st, 5)"
    by (simp add: handle_preprocessor_directive_def Let_def len l0 e t ne pop_push py_startswith_def)
  have 4: "handle_preprocessor_directive ev (push (PBool True) st) lines 6 = Inr (st, 7)"
    by (simp add: handle_preprocessor_directive_def Let_def len l0 ne pop_push py_startswith_def)
  have 5: "is_active (push (PBool True) st) = is_active st"
    by (simp add: is_active_def push_def)
  from 1 2 3 4 5 show ?thesis by simp
qed

theorem elif_replaces_top_flag_witness:
  "evaluate_preprocessor_expression py_eval_atom
       (initial_state [(''true'', PBool True), (''false'', PBool False)]) ''false'' = Inr (False, [])
   \<and> evaluate_preprocessor_expression py_eval_atom
       (initial_state [(''true'', PBool True), (''false'', PBool False)]) ''true'' = Inr (True, [])
   \<and> handle_preprocessor_directive py_eval_atom
        (push (PBool True) (initial_state [(''true'', PBool True), (''false'', PBool False)]))
        [''#if false'', ''a'', ''#elif true'', ''b'', ''#elif true'', ''c'', ''#endif''] 4
       = Inr (push (PBool True) (initial_state [(''true'', PBool True), (''false'', PBool False)]), 5)
   \<and> is_active (push (PBool True) (initial_state [(''true'', PBool True), (''false'', PBool False)]))"
proof -
  have f: "evaluate_preprocessor_expression py_eval_atom
       (initial_state [(''true'', PBool True), (''false'', PBool False)]) ''false'' = Inr (False, [])"
    by code_simp
  have t: "evaluate_preprocessor_expression py_eval_atom
       (initial_state [(''true'', PBool True), (''false'', PBool False)]) ''true'' = Inr (True, [])"
    by code_simp
  have a: "is_active (initial_state [(''true'', PBool True), (''false'', PBool False)])"
    by code_simp
  from elif_replaces_top_flag[OF f t refl] f t a show ?thesis by simp
qed

subsection \<open>Range expressions\<close>

lemma py_split_no_separator: "c \<notin> set s \<Longrightarrow> py_split c s = [s]"
  by (induction s) auto

text \<open>
  For a range expression with one colon the fallback works: if after the substitution of
  the parameters the lower end cannot be evaluated to an integer, or the lower end can and
  the upper end cannot, \<open>_evaluate_range\<close> returns the extent 100 with one diagnostic.
\<close>

lemma unevaluable_range_falls_back:
  assumes "map py_strip (py_split (CHR '':'') range_expr) = [start0, end0]"
      and "eval_int ev (substitute_params params start0) = Inr None
           \<or> (eval_int ev (substitute_params params start0) = Inr (Some a)
               \<and> eval_int ev (substitute_params params end0) = Inr None)"
  shows "evaluate_range ev range_expr params
           = Inr (100, [CouldNotEvaluateRange (substitute_params params start0)
                                              (substitute_params params end0)])"
proof -
  have "CHR '':'' \<in> set range_expr"
  proof (rule ccontr)
    assume "CHR '':'' \<notin> set range_expr"
    then have "py_split (CHR '':'') range_expr = [range_expr]" by (rule py_split_no_separator)
    with assms(1) show False by simp
  qed
  with assms show ?thesis
    by (auto simp: evaluate_range_def Let_def)
qed

lemma unevaluable_range_falls_back_example:
  "map py_strip (py_split (CHR '':'') ''1:unknown_sym'') = [''1'', ''unknown_sym'']
   \<and> eval_int py_eval_atom (substitute_params [(''nx'', PInt 4)] ''1'') = Inr (Some 1)
   \<and> eval_int py_eval_atom (substitute_params [(''nx'', PInt 4)] ''unknown_sym'') = Inr None
   \<and> evaluate_range py_eval_atom ''1:unknown_sym'' [(''nx'', PInt 4)]
       = Inr (100, [CouldNotEvaluateRange ''1'' ''unknown_sym''])"
proof -
  have a: "map py_strip (py_split (CHR '':'') ''1:unknown_sym'') = [''1'', ''unknown_sym'']"
    by code_simp
  have b: "eval_int py_eval_atom (substitute_params [(''nx'', PInt 4)] ''1'') = Inr (Some 1)"
    by code_simp
  have c: "eval_int py_eval_atom (substitute_params [(''nx'', PInt 4)] ''unknown_sym'') = Inr None"
    by code_simp
  have s: "substitute_params [(''nx'', PInt 4)] ''1'' = ''1''"
    "substitute_params [(''nx'', PInt 4)] ''unknown_sym'' = ''unknown_sym''"
    by code_simp+
  from unevaluable_range_falls_back[OF a, of py_eval_atom "[(''nx'', PInt 4)]" 1] a b c s
  show ?thesis by simp
qed

text \<open>
  C8. The dimension text \<open>1:unknown_sym:2\<close> cannot be evaluated, whatever the parameter
  table and the evaluator. The source splits it at the colons and unpacks the three parts
  into \<open>start, end\<close> before the \<open>try\<close>: \<open>ValueError\<close> reaches the caller, and neither the
  extent 100 nor a diagnostic is produced.
\<close>

theorem range_with_two_colons:
  "evaluate_range ev ''1:unknown_sym:2'' params = Inl ValueError"
  by (simp add: evaluate_range_def)

text \<open>
  The same text inside a declaration: the error leaves \<open>_analyze_memory_usage\<close> too.
\<close>

lemma two_colons_in_a_declaration:
  "analyze_memory_usage py_eval_atom [] [] ''real(RK), dimension(1:unknown_sym:2) :: x''
     = Inl ValueError"
  by code_simp

text \<open>
  C6. With the parameters \<open>n = 10\<close> and \<open>n2 = 5\<close>, in this order, the range \<open>1:n2\<close>
  has the extent 5. \<open>str.replace\<close> rewrites the \<open>n\<close> inside \<open>n2\<close> first, the upper end
  becomes \<open>102\<close>, and the function returns 102.
\<close>

theorem substitution_corrupts_longer_name:
  "evaluate_range py_eval_atom ''1:n2'' [(''n'', PInt 10), (''n2'', PInt 5)] = Inr (102, [])"
  by code_simp

subsection \<open>Derived types\<close>

text \<open>
  C9. For the declaration \<open>type(particle) :: p\<close> the entry recorded under
  \<open>derived_types\<close> holds \<open>match.group(1)\<close>, the type \<open>particle\<close>, and not the declared
  value \<open>p\<close>; it holds no size.
\<close>

theorem derived_type_entry_names_the_type:
  "analyze_memory_usage py_eval_atom [] [] ''type(particle) :: p''
     = Inr \<lparr>static_arrays = [], allocatable_arrays = [], derived_types = [NameEntry ''particle'']\<rparr>"
  by code_simp

subsection \<open>Two runs of the analysis\<close>

text \<open>
  C4. The directory holds one file, \<open>p.F90\<close>, whose directives are balanced. The first run
  of \<open>analyze_module\<close> reports the dependency \<open>m\<close> and leaves the flag pushed by
  \<open>#ifdef A\<close> on the stack (the \<open>#endif\<close> after it is stepped over); the second run on the
  same analyzer starts from that stack, keeps no line and reports no dependency.
\<close>

theorem second_run_differs:
  "(case analyze_module py_eval_atom 10 remdups
           \<lparr>source_root =
              [\<lparr>path_name = ''p.F90'', path_str = ''t/p.F90'',
                file_content = ''program p\<newline>use m\<newline>#ifdef A\<newline>#endif\<newline>''\<rparr>],
            preprocessor = initial_state [], processed_contents = []\<rparr>
           ''p.F90'' of
      Inl e \<Rightarrow> False
    | Inr (results1, self1) \<Rightarrow>
        (case analyze_module py_eval_atom 10 remdups self1 ''p.F90'' of
           Inl e \<Rightarrow> False
         | Inr (results2, self2) \<Rightarrow>
             map (\<lambda>(unit, r). (unit, unit_dependencies r)) results1 = [(''p'', [''m''])]
             \<and> map (\<lambda>(unit, r). (unit, unit_dependencies r)) results2 = [(''p'', [])]
             \<and> active_blocks (preprocessor self1) = [PBool True, PBool False]))"
  by code_simp

subsection \<open>The dependency order\<close>

lemma finite_graph_names: "finite (graph_names g)"
  by (simp add: graph_names_def)

lemma dict_get_in_names:
  assumes "d \<in> set (dict_get g name [])"
  shows "name \<in> graph_names g" and "d \<in> graph_names g"
proof -
  from assms obtain ds where m: "map_of g name = Some ds" and d: "d \<in> set ds"
    by (cases "map_of g name") (auto simp: dict_get_def)
  from m have "(name, ds) \<in> set g" by (rule map_of_SomeD)
  then show "name \<in> graph_names g" and "d \<in> graph_names g"
    using d by (force simp: graph_names_def)+
qed

lemma visit_deps_ok:
  assumes IH: "\<And>nm s S. card (graph_names g - fst s) < n \<Longrightarrow> dfs_inv g S s \<Longrightarrow>
                 (\<forall>x \<in> S. (x, nm) \<in> (depends_on g)\<^sup>+) \<Longrightarrow>
                 \<exists>s'. visit n g nm s = Some s' \<and> fst s \<subseteq> fst s' \<and> nm \<in> fst s'
                      \<and> (\<exists>new. snd s' = snd s @ new \<and> set new \<subseteq> {d. (nm, d) \<in> (depends_on g)\<^sup>+})
                      \<and> dfs_inv g S s'"
  shows "set ds \<subseteq> set (dict_get g name []) \<Longrightarrow>
         (ds \<noteq> [] \<longrightarrow> card (graph_names g - fst s) < n) \<Longrightarrow>
         dfs_inv g (insert name S) s \<Longrightarrow>
         (\<forall>x \<in> S. (x, name) \<in> (depends_on g)\<^sup>+) \<Longrightarrow>
         \<exists>s'. visit_deps n g ds s = Some s' \<and> fst s \<subseteq> fst s'
              \<and> (\<exists>new. snd s' = snd s @ new \<and> set new \<subseteq> {d. (name, d) \<in> (depends_on g)\<^sup>+})
              \<and> dfs_inv g (insert name S) s' \<and> set ds \<subseteq> set (snd s')"
proof (induction ds arbitrary: s)
  case Nil
  then show ?case by simp
next
  case (Cons d ds)
  have edge: "(name, d) \<in> depends_on g"
    using Cons.prems(1) by (simp add: depends_on_def)
  have reach: "\<forall>x \<in> insert name S. (x, d) \<in> (depends_on g)\<^sup>+"
    using edge Cons.prems(4) by (auto intro: trancl_into_trancl)
  have c: "card (graph_names g - fst s) < n" using Cons.prems(2) by simp
  from IH[OF c Cons.prems(3) reach] obtain s1 new1 where
    v: "visit n g d s = Some s1" and sub: "fst s \<subseteq> fst s1" and din: "d \<in> fst s1"
    and new1: "snd s1 = snd s @ new1" "set new1 \<subseteq> {x. (d, x) \<in> (depends_on g)\<^sup>+}"
    and inv1: "dfs_inv g (insert name S) s1"
    by blast
  obtain vis1 need1 where s1: "s1 = (vis1, need1)" by (cases s1)
  define need2 where "need2 = (if d \<in> set need1 then need1 else need1 @ [d])"
  define s2 where "s2 = (vis1, need2)"
  have step: "visit_deps n g (d # ds) s = visit_deps n g ds s2"
    using v s1 by (simp add: s2_def need2_def)
  have inv2: "dfs_inv g (insert name S) s2"
    using inv1 din s1 by (auto simp: dfs_inv_def s2_def need2_def)
  have c2: "ds \<noteq> [] \<longrightarrow> card (graph_names g - fst s2) < n"
  proof -
    have "graph_names g - fst s2 \<subseteq> graph_names g - fst s"
      using sub s1 by (auto simp: s2_def)
    then have "card (graph_names g - fst s2) \<le> card (graph_names g - fst s)"
      by (intro card_mono) (simp_all add: finite_graph_names)
    with c show ?thesis by simp
  qed
  have sub2: "set ds \<subseteq> set (dict_get g name [])" using Cons.prems(1) by simp
  from Cons.IH[OF sub2 c2 inv2 Cons.prems(4)] obtain s' new2 where
    r: "visit_deps n g ds s2 = Some s'" and sub': "fst s2 \<subseteq> fst s'"
    and new2: "snd s' = snd s2 @ new2" "set new2 \<subseteq> {x. (name, x) \<in> (depends_on g)\<^sup>+}"
    and inv': "dfs_inv g (insert name S) s'" and all: "set ds \<subseteq> set (snd s')"
    by blast
  have from_d: "set new1 \<subseteq> {x. (name, x) \<in> (depends_on g)\<^sup>+}"
    using new1(2) edge by (auto intro: trancl_trans)
  have "\<exists>new. snd s' = snd s @ new \<and> set new \<subseteq> {x. (name, x) \<in> (depends_on g)\<^sup>+}"
  proof (cases "d \<in> set need1")
    case True
    then have "snd s' = snd s @ (new1 @ new2)"
      using new2(1) new1(1) s1 by (simp add: s2_def need2_def)
    moreover have "set (new1 @ new2) \<subseteq> {x. (name, x) \<in> (depends_on g)\<^sup>+}"
      using from_d new2(2) by simp
    ultimately show ?thesis by blast
  next
    case False
    then have "snd s' = snd s @ (new1 @ [d] @ new2)"
      using new2(1) new1(1) s1 by (simp add: s2_def need2_def)
    moreover have "set (new1 @ [d] @ new2) \<subseteq> {x. (name, x) \<in> (depends_on g)\<^sup>+}"
      using from_d new2(2) edge by auto
    ultimately show ?thesis by blast
  qed
  moreover have "d \<in> set (snd s')"
    using new2(1) by (simp add: s2_def need2_def)
  moreover have "fst s \<subseteq> fst s'" using sub sub' s1 by (auto simp: s2_def)
  ultimately show ?case
    using step r inv' all by simp
qed

lemma visit_ok:
  assumes ac: "acyclic (depends_on g)"
  shows "card (graph_names g - fst s) < n \<Longrightarrow> dfs_inv g S s \<Longrightarrow>
         (\<forall>x \<in> S. (x, name) \<in> (depends_on g)\<^sup>+) \<Longrightarrow>
         \<exists>s'. visit n g name s = Some s' \<and> fst s \<subseteq> fst s' \<and> name \<in> fst s'
              \<and> (\<exists>new. snd s' = snd s @ new \<and> set new \<subseteq> {d. (name, d) \<in> (depends_on g)\<^sup>+})
              \<and> dfs_inv g S s'"
proof (induction n arbitrary: name s S)
  case 0
  then show ?case by simp
next
  case (Suc n)
  obtain vis need where s: "s = (vis, need)" by (cases s)
  have notS: "name \<notin> S"
  proof
    assume "name \<in> S"
    with Suc.prems(3) have "(name, name) \<in> (depends_on g)\<^sup>+" by blast
    with ac show False by (simp add: acyclic_def)
  qed
  show ?case
  proof (cases "name \<in> vis")
    case True
    then have "visit (Suc n) g name s = Some s" by (simp add: s)
    with True Suc.prems(2) s show ?thesis by simp
  next
    case False
    define s1 where "s1 = (insert name vis, need)"
    have step: "visit (Suc n) g name s = visit_deps n g (dict_get g name []) s1"
      using False by (simp add: s s1_def)
    have inv1: "dfs_inv g (insert name S) s1"
      using Suc.prems(2) by (auto simp: dfs_inv_def s s1_def)
    have c1: "dict_get g name [] \<noteq> [] \<longrightarrow> card (graph_names g - fst s1) < n"
    proof
      assume "dict_get g name [] \<noteq> []"
      then obtain d where "d \<in> set (dict_get g name [])" by (cases "dict_get g name []") auto
      then have "name \<in> graph_names g" by (rule dict_get_in_names)
      with False have mem: "name \<in> graph_names g - vis" by simp
      have "graph_names g - fst s1 = (graph_names g - vis) - {name}"
        by (auto simp: s1_def)
      then have "card (graph_names g - fst s1) = card (graph_names g - vis) - 1"
        using mem by (simp add: finite_graph_names)
      moreover have "0 < card (graph_names g - vis)"
        using mem finite_graph_names[of g] by (metis card_gt_0_iff empty_iff finite_Diff)
      ultimately show "card (graph_names g - fst s1) < n"
        using Suc.prems(1) by (simp add: s)
    qed
    from visit_deps_ok[where n = n and g = g and ds = "dict_get g name []" and name = name
        and s = s1 and S = S, OF Suc.IH _ c1 inv1 Suc.prems(3)]
    obtain s' new where
      r: "visit_deps n g (dict_get g name []) s1 = Some s'" and sub: "fst s1 \<subseteq> fst s'"
      and new: "snd s' = snd s1 @ new" "set new \<subseteq> {d. (name, d) \<in> (depends_on g)\<^sup>+}"
      and inv': "dfs_inv g (insert name S) s'"
      and all: "set (dict_get g name []) \<subseteq> set (snd s')"
      by blast
    have "dfs_inv g S s'"
      using inv' all by (cases s') (auto simp: dfs_inv_def)
    moreover have "fst s \<subseteq> fst s'" "name \<in> fst s'"
      using sub by (auto simp: s s1_def)
    moreover have "snd s' = snd s @ new" using new(1) by (simp add: s s1_def)
    ultimately show ?thesis using step r new(2) by auto
  qed
qed

lemma needed_order_correct:
  assumes ac: "acyclic (depends_on g)" and depth: "card (graph_names g) < depth"
  shows "\<exists>order. needed_order depth g target = Some order \<and> distinct order
           \<and> last order = target
           \<and> (\<forall>d. (target, d) \<in> (depends_on g)\<^sup>+ \<longrightarrow> d \<in> set (butlast order))"
proof -
  have inv0: "dfs_inv g {} ({}, [])" by (simp add: dfs_inv_def)
  have c0: "card (graph_names g - fst ({}::string set, []::string list)) < depth"
    using depth by simp
  from visit_ok[OF ac c0 inv0, of target] obtain s' new where
    v: "visit depth g target ({}, []) = Some s'" and tin: "target \<in> fst s'"
    and new: "snd s' = new" "set new \<subseteq> {d. (target, d) \<in> (depends_on g)\<^sup>+}"
    and inv: "dfs_inv g {} s'"
    by auto
  obtain vis need where s': "s' = (vis, need)" by (cases s')
  have need: "set need \<subseteq> vis" "distinct need"
    "\<And>v. v \<in> vis \<Longrightarrow> set (dict_get g v []) \<subseteq> set need"
    using inv by (auto simp: dfs_inv_def s')
  have tnot: "target \<notin> set need"
  proof
    assume "target \<in> set need"
    with new s' have "(target, target) \<in> (depends_on g)\<^sup>+" by auto
    with ac show False by (simp add: acyclic_def)
  qed
  have closed: "d \<in> set need" if "(target, d) \<in> (depends_on g)\<^sup>+" for d
    using that
  proof (induction rule: trancl_induct)
    case (base y)
    then have "y \<in> set (dict_get g target [])" by (simp add: depends_on_def)
    with need(3)[of target] tin s' show ?case by auto
  next
    case (step y z)
    then have "z \<in> set (dict_get g y [])" by (simp add: depends_on_def)
    moreover have "y \<in> vis" using step.IH need(1) by auto
    ultimately show ?case using need(3)[of y] by auto
  qed
  have "needed_order depth g target = Some (need @ [target])"
    using v s' by (simp add: needed_order_def)
  moreover have "distinct (need @ [target])" using need(2) tnot by simp
  moreover have "\<forall>d. (target, d) \<in> (depends_on g)\<^sup>+ \<longrightarrow> d \<in> set (butlast (need @ [target]))"
    using closed by simp
  ultimately show ?thesis by simp
qed

text \<open>
  C5. Let the catalog and the dependency graph be those that \<open>analyze_file\<close> builds from the
  directory. If the graph has no cycle, the file name resolves to a target unit, and the
  recursion depth available exceeds the number of names in the graph, then
  \<open>analyze_file\<close> returns an order that contains no name twice, ends with the target, and
  holds every unit the target transitively depends on before that last position.
\<close>

theorem analyze_file_order:
  assumes a: "a = analyze_dependencies set_order
                    (scan_files dir \<lparr>modules = [], programs = [], dependencies = []\<rparr>)"
    and ac: "acyclic (depends_on (dependencies a))"
    and target: "find_target a filename = Some target"
    and depth: "card (graph_names (dependencies a)) < depth"
  shows "\<exists>order. analyze_file depth set_order dir filename = Inr (order, a)
           \<and> distinct order \<and> last order = target
           \<and> (\<forall>d. (target, d) \<in> (depends_on (dependencies a))\<^sup>+ \<longrightarrow> d \<in> set (butlast order))"
proof -
  from needed_order_correct[OF ac depth, of target] obtain order where
    o: "needed_order depth (dependencies a) target = Some order"
    and p: "distinct order" "last order = target"
      "\<forall>d. (target, d) \<in> (depends_on (dependencies a))\<^sup>+ \<longrightarrow> d \<in> set (butlast order)"
    by blast
  have "analyze_file depth set_order dir filename = Inr (order, a)"
    using a target o by (simp add: analyze_file_def Let_def)
  with p show ?thesis by blast
qed

theorem analyze_file_order_witness:
  "analyze_dependencies remdups
      (scan_files
         [\<lparr>path_name = ''m.F90'', path_str = ''t/m.F90'',
            file_content = ''module m\<newline>end module m''\<rparr>,
          \<lparr>path_name = ''p.F90'', path_str = ''t/p.F90'',
            file_content = ''program p\<newline>use m\<newline>end program p''\<rparr>]
         \<lparr>modules = [], programs = [], dependencies = []\<rparr>)
     = \<lparr>modules = [(''m'', \<lparr>path_name = ''m.F90'', path_str = ''t/m.F90'',
                             file_content = ''module m\<newline>end module m''\<rparr>)],
         programs = [(''p'', \<lparr>path_name = ''p.F90'', path_str = ''t/p.F90'',
                              file_content = ''program p\<newline>use m\<newline>end program p''\<rparr>)],
         dependencies = [(''m'', []), (''p'', [''m''])]\<rparr>
   \<and> acyclic (depends_on [(''m'', []), (''p'', [''m''])])
   \<and> card (graph_names [(''m'', []), (''p'', [''m''])]) < 10
   \<and> (\<exists>a. analyze_file 10 remdups
         [\<lparr>path_name = ''m.F90'', path_str = ''t/m.F90'',
            file_content = ''module m\<newline>end module m''\<rparr>,
          \<lparr>path_name = ''p.F90'', path_str = ''t/p.F90'',
            file_content = ''program p\<newline>use m\<newline>end program p''\<rparr>]
         ''p.F90'' = Inr ([''m'', ''p''], a))"
proof -
  define dir where "dir =
         [\<lparr>path_name = ''m.F90'', path_str = ''t/m.F90'',
            file_content = ''module m\<newline>end module m''\<rparr>,
          \<lparr>path_name = ''p.F90'', path_str = ''t/p.F90'',
            file_content = ''program p\<newline>use m\<newline>end program p''\<rparr>]"
  define a where "a = \<lparr>modules = [(''m'', \<lparr>path_name = ''m.F90'', path_str = ''t/m.F90'',
                             file_content = ''module m\<newline>end module m''\<rparr>)],
         programs = [(''p'', \<lparr>path_name = ''p.F90'', path_str = ''t/p.F90'',
                              file_content = ''program p\<newline>use m\<newline>end program p''\<rparr>)],
         dependencies = [(''m'', []), (''p'', [''m''])]\<rparr>"
  have scan: "analyze_dependencies remdups
      (scan_files dir \<lparr>modules = [], programs = [], dependencies = []\<rparr>) = a"
    unfolding dir_def a_def by code_simp
  have deps: "dependencies a = [(''m'', []), (''p'', [''m''])]"
    by (simp add: a_def)
  have run: "analyze_file 10 remdups dir ''p.F90'' = Inr ([''m'', ''p''], a)"
    unfolding dir_def a_def by code_simp
  have g: "depends_on [(''m'', []), (''p'', [''m''])] = {(''p'', ''m'')}"
    by (auto simp: depends_on_def dict_get_def split: if_splits)
  have ac: "acyclic (depends_on (dependencies a))"
    unfolding deps g by (simp add: acyclic_insert) (simp add: acyclic_def)
  have names: "graph_names [(''m'', []), (''p'', [''m''])] = {''m'', ''p''}"
    by (auto simp: graph_names_def)
  have depth: "card (graph_names (dependencies a)) < 10"
    unfolding deps names by simp
  have target: "find_target a ''p.F90'' = Some ''p''"
    unfolding a_def by code_simp
  from analyze_file_order[OF scan[symmetric] ac target depth] run
  have "\<exists>order. analyze_file 10 remdups dir ''p.F90'' = Inr (order, a) \<and> order = [''m'', ''p'']"
    by simp
  with scan ac depth show ?thesis
    unfolding deps by (auto simp: dir_def a_def)
qed

end
